theory Spec2Isabelle
  imports Complex_Main "HOL-Library.Sublist" "HOL-Library.Product_Lexorder" "HOL-Library.Stream"
begin

section \<open>Python values and exceptions\<close>

text \<open>
  The repository is Python. Every exception the modelled code can raise is a constructor
  of \<open>error\<close>; a function that can raise returns \<open>error + 'a\<close>, with \<open>Inl\<close> for the
  exception. \<open>IndexError\<close> is, as in Python, the lookup error raised by an out-of-range
  subscript (and by \<open>random.choice\<close> on an empty sequence).
\<close>

datatype error =
    AssertionError
  | IndexError
  | ValueError string
  | NameError string
  | TypeError
  | RuntimeError

definition rbind :: "error + 'a \<Rightarrow> ('a \<Rightarrow> error + 'b) \<Rightarrow> error + 'b" where
  "rbind m f = (case m of Inl e \<Rightarrow> Inl e | Inr x \<Rightarrow> f x)"

definition py_index :: "'a list \<Rightarrow> int \<Rightarrow> error + 'a" where
  \<comment> \<open>the subscript \<open>xs[i]\<close>; \<open>xs[-1]\<close> is the last element\<close>
  "py_index xs i =
     (if 0 \<le> i \<and> i < int (length xs) then Inr (xs ! nat i)
      else if i < 0 \<and> - int (length xs) \<le> i then Inr (xs ! nat (int (length xs) + i))
      else Inl IndexError)"

section \<open>analysis\_utils.py\<close>

subsection \<open>perf\_metric\<close>

text \<open>
  A logit tensor of shape (batch, seq, vocab) is a list of lists of lists. The scalars are
  modelled by reals; the only float operation whose special values matter to a caller is
  the final division, whose IEEE results at a zero denominator are kept apart in \<open>fval\<close>.
\<close>

datatype fval = Fin real | PosInf | NegInf | NaN

definition fdiv :: "real \<Rightarrow> real \<Rightarrow> fval" where
  "fdiv x y =
     (if y = 0 then (if x = 0 then NaN else if 0 < x then PosInf else NegInf)
      else Fin (x / y))"

definition log_softmax :: "real list \<Rightarrow> real list" where
  "log_softmax xs = map (\<lambda>x. x - ln (sum_list (map exp xs))) xs"

definition tensor_at :: "real list list list \<Rightarrow> int \<Rightarrow> int \<Rightarrow> error + real list" where
  \<comment> \<open>\<open>t[b, p]\<close>\<close>
  "tensor_at t b p = rbind (py_index t b) (\<lambda>rows. py_index rows p)"

text \<open>
  The names bound at module level in analysis\_utils.py: its imports and its functions.
  \<open>perf_metric\<close> has no local or parameter called \<open>batch_size\<close>, so the name in its
  \<open>return\<close> is looked up here (it is no builtin either).
\<close>

definition module_globals :: "string list" where
  "module_globals =
     [''math'', ''torch'', ''einsum'', ''TraceDict'', ''apply_causal_mask'', ''rotate_half'',
      ''apply_rotary_pos_emb'', ''get_attn_scores'', ''perf_metric'',
      ''compute_topk_components'']"

definition lookup_global :: "string \<Rightarrow> error + unit" where
  \<comment> \<open>every module-level name is bound to a module or a function object\<close>
  "lookup_global n = (if n \<in> set module_globals then Inr () else Inl (NameError n))"

definition perf_metric ::
  "real list list list \<Rightarrow> int \<Rightarrow> real list list list \<Rightarrow> real list list list \<Rightarrow> int \<Rightarrow> int
     \<Rightarrow> error + fval" where
  "perf_metric patched_logits answer base_logits source_logits base_last_token_pos
       source_last_token_pos =
     rbind (tensor_at patched_logits 0 base_last_token_pos) (\<lambda>p_row.
     rbind (tensor_at source_logits 0 source_last_token_pos) (\<lambda>s_row.
     rbind (tensor_at base_logits 0 (- 1)) (\<lambda>b_row.
       let patched = log_softmax p_row;
           corrupt = log_softmax s_row;
           clean = log_softmax b_row
       in
     rbind (py_index patched answer) (\<lambda>pa.
     rbind (py_index corrupt answer) (\<lambda>ca.
     rbind (py_index clean answer) (\<lambda>cl.
       let numerator = pa - ca;
           denominator = cl - ca;
           score = fdiv numerator denominator
       in
     rbind (lookup_global ''batch_size'') (\<lambda>_. Inl TypeError)))))))"

subsection \<open>compute\_topk\_components\<close>

text \<open>
  \<open>torch.topk\<close> is a library function outside the repository, so it is a parameter of
  \<open>compute_topk_components\<close>: a function from a one-dimensional tensor, \<open>k\<close> and \<open>largest\<close>
  to the \<open>indices\<close> of its result. What the library promises is \<open>topk_contract\<close>: \<open>k\<close>
  distinct indices into the tensor, best entry first, the entries compared by their values
  alone. Nothing is promised on which of several equal entries are returned, nor on the
  order among them.
\<close>

type_synonym topk_fn = "real list \<Rightarrow> nat \<Rightarrow> bool \<Rightarrow> error + nat list"

definition no_worse :: "bool \<Rightarrow> real \<Rightarrow> real \<Rightarrow> bool" where
  \<comment> \<open>value \<open>a\<close> may be ranked before value \<open>b\<close>\<close>
  "no_worse largest a b = (if largest then b \<le> a else a \<le> b)"

definition topk_contract :: "topk_fn \<Rightarrow> bool" where
  "topk_contract tk =
     (\<forall>vals k largest. k \<le> length vals \<longrightarrow>
        (\<exists>idx. tk vals k largest = Inr idx \<and> length idx = k \<and> distinct idx
           \<and> (\<forall>p<k. idx ! p < length vals
                 \<and> (\<forall>q<length vals. q \<notin> set (take (Suc p) idx)
                       \<longrightarrow> no_worse largest (vals ! (idx ! p)) (vals ! q)))))"

definition ncols :: "real list list \<Rightarrow> nat" where
  \<comment> \<open>\<open>patching_scores.shape[1]\<close> of a two-dimensional tensor given by its rows\<close>
  "ncols g = (case g of [] \<Rightarrow> 0 | r # _ \<Rightarrow> length r)"

definition compute_topk_components ::
  "topk_fn \<Rightarrow> real list list \<Rightarrow> nat \<Rightarrow> bool \<Rightarrow> error + nat list list" where
  "compute_topk_components tk patching_scores k largest =
     rbind (tk (concat patching_scores) k largest) (\<lambda>top_indices.
       let row_indices = map (\<lambda>i. i div ncols patching_scores) top_indices;
           col_indices = map (\<lambda>i. i mod ncols patching_scores) top_indices
       in Inr (map (\<lambda>(r, c). [r, c]) (zip row_indices col_indices)))"

text \<open>
  Functions that keep the contract, for concrete runs: the indices sorted by value, equal
  values ordered by \<open>tie\<close>. \<open>topk_low\<close> puts the lower index first among equal values,
  \<open>topk_high\<close> the higher one.
\<close>

definition topk_key :: "(nat \<Rightarrow> int) \<Rightarrow> real list \<Rightarrow> bool \<Rightarrow> nat \<Rightarrow> real \<times> int" where
  "topk_key tie vals largest i = (if largest then - (vals ! i) else vals ! i, tie i)"

definition topk_sorted :: "(nat \<Rightarrow> int) \<Rightarrow> topk_fn" where
  "topk_sorted tie vals k largest =
     (if length vals < k then Inl RuntimeError
      else Inr (take k (sort_key (topk_key tie vals largest) [0..<length vals])))"

definition topk_low :: topk_fn where
  "topk_low = topk_sorted int"

definition topk_high :: topk_fn where
  "topk_high = topk_sorted (\<lambda>i. - int i)"

section \<open>Python strings, the tokenizer and the random generator\<close>

text \<open>
  \<open>s.split(sep)\<close> for a non-empty separator (the code splits at the constants
  \<open>" "\<close>, \<open>". "\<close> and \<open>", "\<close> only): the pieces between the non-overlapping occurrences of
  \<open>sep\<close>, found from the left. \<open>acc\<close> holds the current piece, reversed.
\<close>

fun split_from :: "string \<Rightarrow> string \<Rightarrow> string \<Rightarrow> string list" where
  "split_from sep acc [] = [rev acc]"
| "split_from sep acc (c # cs) =
     (if prefix sep (c # cs) then rev acc # split_from sep [] (drop (length sep - 1) cs)
      else split_from sep (c # acc) cs)"

definition str_split :: "string \<Rightarrow> string \<Rightarrow> string list" where
  "str_split s sep = split_from sep [] s"

fun str_join :: "string \<Rightarrow> string list \<Rightarrow> string" where
  "str_join sep [] = []"
| "str_join sep [x] = x"
| "str_join sep (x # y # ys) = x @ sep @ str_join sep (y # ys)"

fun str_replace :: "string \<Rightarrow> string \<Rightarrow> string \<Rightarrow> string" where
  \<comment> \<open>\<open>s.replace(old, new)\<close> for a non-empty \<open>old\<close>: every occurrence, from the left\<close>
  "str_replace [] old new = []"
| "str_replace (c # cs) old new =
     (if prefix old (c # cs) then new @ str_replace (drop (length old - 1) cs) old new
      else c # str_replace cs old new)"

definition str_in :: "string \<Rightarrow> string \<Rightarrow> bool" where
  \<comment> \<open>\<open>a in b\<close> on strings: \<open>a\<close> occurs in \<open>b\<close> as a contiguous substring\<close>
  "str_in a b = sublist a b"

primrec map_res :: "('a \<Rightarrow> error + 'b) \<Rightarrow> 'a list \<Rightarrow> error + 'b list" where
  "map_res f [] = Inr []"
| "map_res f (x # xs) = rbind (f x) (\<lambda>y. rbind (map_res f xs) (\<lambda>ys. Inr (y # ys)))"

primrec fold_res :: "('a \<Rightarrow> 's \<Rightarrow> error + 's) \<Rightarrow> 'a list \<Rightarrow> 's \<Rightarrow> error + 's" where
  "fold_res f [] s = Inr s"
| "fold_res f (x # xs) s = rbind (f x s) (fold_res f xs)"

text \<open>
  The tokenizer is the external model's. \<open>encode\<close> is \<open>tokenizer.encode(text)\<close>, which is
  also row 0 of \<open>tokenizer(text).input_ids\<close>; \<open>batch\<close> is
  \<open>tokenizer(prompts, padding=True, return_tensors="pt")\<close>, giving the rows of
  \<open>input_ids\<close> and of \<open>attention_mask\<close>. Both are pure: the same text gives the same ids.
\<close>

record tokenizer =
  encode :: "string \<Rightarrow> int list"
  batch :: "string list \<Rightarrow> error + (int list list \<times> int list list)"

definition wf_tokenizer :: "tokenizer \<Rightarrow> bool" where
  \<comment> \<open>the contract of a padded batch: one row per prompt, the mask row as long as the id
      row, all rows of one length, mask entries 0 or 1\<close>
  "wf_tokenizer tok =
     (\<forall>ps ids amask. batch tok ps = Inr (ids, amask) \<longrightarrow>
        length ids = length ps \<and> length amask = length ps
        \<and> (\<forall>r<length ps. length (amask ! r) = length (ids ! r)
               \<and> length (ids ! r) = length (ids ! 0)
               \<and> set (amask ! r) \<subseteq> {0, 1}))"

definition last_token_indices_of :: "int list list \<Rightarrow> int list" where
  \<comment> \<open>\<open>input_tokens["attention_mask"].sum(dim=1) - 1\<close>\<close>
  "last_token_indices_of amask = map (\<lambda>row. sum_list row - 1) amask"

text \<open>
  Python's global generator (module \<open>random\<close>) is a stream of raw draws, passed in and
  returned: \<open>randbelow n\<close> consumes one draw and reduces it below \<open>n\<close>, so every outcome
  of \<open>randint\<close>, \<open>choice\<close> and \<open>shuffle\<close> is the outcome under some stream.
\<close>

type_synonym rng = "nat stream"

definition randbelow :: "nat \<Rightarrow> rng \<Rightarrow> nat \<times> rng" where
  "randbelow n g = (shd g mod n, stl g)"

definition randint :: "nat \<Rightarrow> nat \<Rightarrow> rng \<Rightarrow> nat \<times> rng" where
  \<comment> \<open>\<open>random.randint(a, b)\<close> with \<open>a \<le> b\<close>: both ends included\<close>
  "randint a b g = (a + fst (randbelow (b - a + 1) g), snd (randbelow (b - a + 1) g))"

definition random_choice :: "'a list \<Rightarrow> rng \<Rightarrow> error + ('a \<times> rng)" where
  "random_choice xs g =
     (if xs = [] then Inl IndexError
      else Inr (xs ! fst (randbelow (length xs) g), snd (randbelow (length xs) g)))"

fun shuffle_loop :: "nat \<Rightarrow> 'a list \<Rightarrow> rng \<Rightarrow> 'a list \<times> rng" where
  \<comment> \<open>\<open>for i in reversed(range(1, len(x))): j = randbelow(i + 1); x[i], x[j] = x[j], x[i]\<close>\<close>
  "shuffle_loop 0 xs g = (xs, g)"
| "shuffle_loop (Suc i) xs g =
     (let j = fst (randbelow (Suc (Suc i)) g)
      in shuffle_loop i (xs[Suc i := xs ! j, j := xs ! Suc i]) (snd (randbelow (Suc (Suc i)) g)))"

definition random_shuffle :: "'a list \<Rightarrow> rng \<Rightarrow> 'a list \<times> rng" where
  "random_shuffle xs g = shuffle_loop (length xs - 1) xs g"


definition range_step :: "nat \<Rightarrow> nat \<Rightarrow> nat list" where
  \<comment> \<open>\<open>range(0, stop, step)\<close> for \<open>step > 0\<close>\<close>
  "range_step stop step = map (\<lambda>q. q * step) [0..<(stop + step - 1) div step]"

section \<open>data/data\_utils.py\<close>

text \<open>
  The dataset is the list of the \<open>sentence\<close> fields of the file's lines, in order (reading
  and parsing the file is outside the model). Counts are natural numbers.
\<close>

definition base_prompt_of :: "string \<Rightarrow> string" where
  \<comment> \<open>\<open>" ".join(sentence.split(" ")[:-1])\<close>\<close>
  "base_prompt_of sentence = str_join '' '' (butlast (str_split sentence '' ''))"

definition label_of :: "string \<Rightarrow> error + string" where
  \<comment> \<open>\<open>sentence.split(" ")[-1][:-1]\<close>\<close>
  "label_of sentence = rbind (py_index (str_split sentence '' '') (- 1)) (\<lambda>w. Inr (butlast w))"

definition label_token :: "tokenizer \<Rightarrow> string \<Rightarrow> error + int" where
  \<comment> \<open>\<open>tokenizer.encode(label)[1]\<close>\<close>
  "label_token tok label = py_index (encode tok label) 1"

subsection \<open>change\_box\_label and change\_query\_box\_pos\<close>

definition relabel_digits :: "string \<Rightarrow> string" where
  "relabel_digits org_prompt =
     str_replace (str_replace (str_replace org_prompt '' 0'' '' 6'') '' 1'' '' 4'') '' 2'' '' 9''"

definition change_box_label_item :: "tokenizer \<Rightarrow> string \<Rightarrow> error + (string list \<times> int list)" where
  \<comment> \<open>one pass of the loop: the two prompts and the two labels it appends\<close>
  "change_box_label_item tok sentence =
     (let org_prompt = base_prompt_of sentence in
      rbind (label_of sentence) (\<lambda>label.
      rbind (label_token tok label) (\<lambda>l1.
        let new_prompt = relabel_digits org_prompt in
      rbind (label_token tok label) (\<lambda>l2.
        Inr ([org_prompt, new_prompt], [l1, l2])))))"

definition change_box_label ::
  "tokenizer \<Rightarrow> nat \<Rightarrow> string list \<Rightarrow> error + (int list list \<times> int list \<times> int list)" where
  "change_box_label tok num_samples data =
     (if \<not> num_samples \<le> length data then Inl AssertionError
      else
        rbind (map_res (change_box_label_item tok) (take num_samples data)) (\<lambda>items.
          let prompts = concat (map fst items);
              labels = concat (map snd items)
          in
        rbind (batch tok prompts) (\<lambda>(input_ids, attention_mask).
          let last_token_indices = last_token_indices_of attention_mask;
              output_ids = labels
          in Inr (input_ids, last_token_indices, output_ids))))"

definition change_query_box_pos ::
  "tokenizer \<Rightarrow> nat \<Rightarrow> string list
     \<Rightarrow> error + (int list list \<times> int list \<times> int list list \<times> int list \<times> int list)" where
  "change_query_box_pos tok num_samples data =
     rbind (change_box_label tok num_samples data) (\<lambda>(input_ids, last_token_indices, output_ids).
     rbind (map_res (\<lambda>i.
         rbind (py_index input_ids (int i)) (\<lambda>b.
         rbind (py_index last_token_indices (int i)) (\<lambda>bp.
         rbind (py_index input_ids (int i + 1)) (\<lambda>s.
         rbind (py_index last_token_indices (int i + 1)) (\<lambda>sp.
         rbind (py_index output_ids (int i)) (\<lambda>c.
           Inr (b, bp, s, sp, c))))))) (range_step num_samples 2)) (\<lambda>rows.
       Inr (map (\<lambda>(b, bp, s, sp, c). b) rows,
            map (\<lambda>(b, bp, s, sp, c). bp) rows,
            map (\<lambda>(b, bp, s, sp, c). s) rows,
            map (\<lambda>(b, bp, s, sp, c). sp) rows,
            map (\<lambda>(b, bp, s, sp, c). c) rows)))"

subsection \<open>entity\_tracking\_example\_sampler and random\_samples\<close>

definition llama_architectures :: "string list" where
  "llama_architectures =
     [''AlignableLlamaForCausalLM'', ''LLaMAForCausalLM'', ''LlamaForCausalLM'',
      ''LlaMAForCausalLM'']"

definition architecture_label_token :: "tokenizer \<Rightarrow> string \<Rightarrow> string \<Rightarrow> error + int" where
  "architecture_label_token tok architecture label =
     (if architecture \<in> set llama_architectures then py_index (encode tok label) 1
      else if architecture = ''GPT2LMHeadModel'' then py_index (encode tok label) 0
      else Inl (ValueError (''Unknown architecture '' @ architecture)))"

definition entity_tracking_item :: "tokenizer \<Rightarrow> string \<Rightarrow> string \<Rightarrow> error + (string \<times> int)" where
  "entity_tracking_item tok architecture sentence =
     rbind (label_of sentence) (\<lambda>label.
       let prompt = base_prompt_of sentence in
     rbind (architecture_label_token tok architecture label) (\<lambda>l. Inr (prompt, l)))"

definition entity_tracking_example_sampler ::
  "tokenizer \<Rightarrow> nat \<Rightarrow> string list \<Rightarrow> string
     \<Rightarrow> error + (int list list \<times> int list \<times> int list)" where
  "entity_tracking_example_sampler tok num_samples data architecture =
     (if \<not> num_samples \<le> length data then Inl AssertionError
      else
        rbind (map_res (entity_tracking_item tok architecture) (take num_samples data)) (\<lambda>items.
        rbind (batch tok (map fst items)) (\<lambda>(input_ids, attention_mask).
          Inr (input_ids, last_token_indices_of attention_mask, map snd items))))"

text \<open>
  \<open>random_samples\<close> redraws an index until it is a new one. Nothing bounds the number of
  redraws, so the loop is a partial function: \<open>None\<close> is a run that never leaves it.
\<close>

partial_function (option) redraw :: "nat \<Rightarrow> nat list \<Rightarrow> nat \<Rightarrow> rng \<Rightarrow> (nat \<times> rng) option" where
  \<comment> \<open>\<open>while i in existing_indices: i = random.randint(0, len(data))\<close>\<close>
  "redraw n existing_indices i g =
     (if i \<in> set existing_indices
      then redraw n existing_indices (fst (randint 0 n g)) (snd (randint 0 n g))
      else Some (i, g))"

definition random_samples_step ::
  "tokenizer \<Rightarrow> string list \<Rightarrow> string \<Rightarrow> nat list \<times> string list \<times> int list \<times> rng
     \<Rightarrow> (error + nat list \<times> string list \<times> int list \<times> rng) option" where
  "random_samples_step tok data architecture st =
     (case st of (existing_indices, prompts, labels, g) \<Rightarrow>
        (case redraw (length data) existing_indices
                (fst (randint 0 (length data) g)) (snd (randint 0 (length data) g)) of
           None \<Rightarrow> None
         | Some (i, g') \<Rightarrow>
             Some (rbind (py_index data (int i)) (\<lambda>sentence.
                   rbind (label_of sentence) (\<lambda>label.
                     let prompt = base_prompt_of sentence in
                   rbind (architecture_label_token tok architecture label) (\<lambda>l.
                     Inr (existing_indices @ [i], prompts @ [prompt], labels @ [l], g')))))))"

primrec random_samples_loop ::
  "tokenizer \<Rightarrow> string list \<Rightarrow> string \<Rightarrow> nat \<Rightarrow> nat list \<times> string list \<times> int list \<times> rng
     \<Rightarrow> (error + nat list \<times> string list \<times> int list \<times> rng) option" where
  "random_samples_loop tok data architecture 0 st = Some (Inr st)"
| "random_samples_loop tok data architecture (Suc n) st =
     (case random_samples_step tok data architecture st of
        None \<Rightarrow> None
      | Some (Inl e) \<Rightarrow> Some (Inl e)
      | Some (Inr st') \<Rightarrow> random_samples_loop tok data architecture n st')"

definition random_samples ::
  "tokenizer \<Rightarrow> nat \<Rightarrow> string list \<Rightarrow> string \<Rightarrow> rng
     \<Rightarrow> (error + (int list list \<times> int list \<times> int list) \<times> rng) option" where
  "random_samples tok num_samples data architecture g =
     (if \<not> num_samples \<le> length data then Some (Inl AssertionError)
      else
        (case random_samples_loop tok data architecture num_samples ([], [], [], g) of
           None \<Rightarrow> None
         | Some (Inl e) \<Rightarrow> Some (Inl e)
         | Some (Inr (existing_indices, prompts, labels, g')) \<Rightarrow>
             Some (rbind (batch tok prompts) (\<lambda>(input_ids, attention_mask).
                     Inr ((input_ids, last_token_indices_of attention_mask, labels), g')))))"

subsection \<open>box\_index\_aligner\_examples\<close>

definition py_set_item :: "'a list \<Rightarrow> int \<Rightarrow> 'a \<Rightarrow> error + 'a list" where
  \<comment> \<open>\<open>xs[i] = v\<close> on a copy of \<open>xs\<close>\<close>
  "py_set_item xs i v =
     (if 0 \<le> i \<and> i < int (length xs) then Inr (xs[nat i := v])
      else if i < 0 \<and> - int (length xs) \<le> i then Inr (xs[nat (int (length xs) + i) := v])
      else Inl IndexError)"

type_synonym aligner_state =
  "int list list \<times> int list \<times> int list list \<times> int list \<times> int list \<times> int list \<times> rng"

definition aligner_step ::
  "tokenizer \<Rightarrow> nat \<Rightarrow> nat \<Rightarrow> int list list \<Rightarrow> int list \<Rightarrow> int list \<Rightarrow> nat \<Rightarrow> nat
     \<Rightarrow> aligner_state \<Rightarrow> error + aligner_state" where
  \<comment> \<open>the body of the inner loop, after its \<open>break\<close> test\<close>
  "aligner_step tok num_samples num_ents_or_ops input_ids last_token_indices output_ids i j st =
     (case st of (all_base_input_ids, all_base_input_last_pos, all_source_input_ids,
                  all_source_input_last_pos, all_ctf_output_ids, all_intervention_ids, g) \<Rightarrow>
      rbind (py_index input_ids (int (i + j))) (\<lambda>b.
      rbind (py_index last_token_indices (int (i + j))) (\<lambda>bp.
      rbind (py_index output_ids (int (i + j))) (\<lambda>c.
      rbind (random_choice
               (range_step (num_samples - ((j + 1) mod num_ents_or_ops)) num_ents_or_ops) g)
        (\<lambda>(r, g1).
        let random_source_index = r + (j + 1) mod num_ents_or_ops in
      rbind (py_index input_ids (int random_source_index)) (\<lambda>source_example.
        let random_alphabet = [char_of (fst (randint 65 90 g1))];
            g2 = snd (randint 65 90 g1)
        in
      rbind (py_index (encode tok random_alphabet) 1) (\<lambda>random_alphabet_token.
      rbind (py_set_item source_example (- 3) random_alphabet_token) (\<lambda>source_example.
      rbind (py_index last_token_indices (int random_source_index)) (\<lambda>sp.
        Inr (all_base_input_ids @ [b], all_base_input_last_pos @ [bp],
             all_source_input_ids @ [source_example], all_source_input_last_pos @ [sp],
             all_ctf_output_ids @ [c], all_intervention_ids @ [0], g2))))))))))"

fun aligner_inner ::
  "tokenizer \<Rightarrow> nat \<Rightarrow> nat \<Rightarrow> int list list \<Rightarrow> int list \<Rightarrow> int list \<Rightarrow> nat \<Rightarrow> nat list
     \<Rightarrow> aligner_state \<Rightarrow> error + aligner_state" where
  \<comment> \<open>\<open>for j in range(num_ents_or_ops): if i + j >= num_samples: break; ...\<close>\<close>
  "aligner_inner tok num_samples m input_ids last_token_indices output_ids i [] st = Inr st"
| "aligner_inner tok num_samples m input_ids last_token_indices output_ids i (j # js) st =
     (if i + j \<ge> num_samples then Inr st
      else rbind (aligner_step tok num_samples m input_ids last_token_indices output_ids i j st)
             (aligner_inner tok num_samples m input_ids last_token_indices output_ids i js))"

definition box_index_aligner_examples ::
  "tokenizer \<Rightarrow> nat \<Rightarrow> string list \<Rightarrow> nat \<Rightarrow> string \<Rightarrow> rng
     \<Rightarrow> error + (int list list \<times> int list \<times> int list list \<times> int list \<times> int list
                  \<times> int list \<times> int list) \<times> rng" where
  \<comment> \<open>the parameter \<open>model\<close> is not used by the function and is left out\<close>
  "box_index_aligner_examples tok num_samples data num_ents_or_ops architecture g =
     rbind (entity_tracking_example_sampler tok num_samples data architecture)
       (\<lambda>(input_ids, last_token_indices, output_ids).
     if num_ents_or_ops = 0 then Inl (ValueError ''range() arg 3 must not be zero'')
     else
     rbind (fold_res
              (\<lambda>i. aligner_inner tok num_samples num_ents_or_ops input_ids last_token_indices
                      output_ids i [0..<num_ents_or_ops])
              (range_step num_samples num_ents_or_ops) ([], [], [], [], [], [], g))
       (\<lambda>(all_base_input_ids, all_base_input_last_pos, all_source_input_ids,
          all_source_input_last_pos, all_ctf_output_ids, all_intervention_ids, g').
          let all_incorrect_output_ids = []
          in Inr ((all_base_input_ids, all_base_input_last_pos, all_source_input_ids,
                   all_source_input_last_pos, all_ctf_output_ids, all_intervention_ids,
                   all_incorrect_output_ids), g')))"

text \<open>
  What holds of the accumulators after \<open>n\<close> passes of the loop body: all are \<open>n\<close> long,
  entry \<open>t\<close> of the base lists is row \<open>t\<close> of the sampler's output, and entry \<open>t\<close> of the two
  source lists comes from one and the same row \<open>r\<close>.
\<close>

definition aligner_inv :: "int list list \<Rightarrow> int list \<Rightarrow> int list \<Rightarrow> nat \<Rightarrow> aligner_state \<Rightarrow> bool" where
  "aligner_inv ids li out n st =
     (case st of (b, bp, s, sp, c, iv, g) \<Rightarrow>
        length b = n \<and> length bp = n \<and> length s = n \<and> length sp = n \<and> length c = n
        \<and> length iv = n
        \<and> (\<forall>t<n. py_index ids (int t) = Inr (b ! t) \<and> py_index li (int t) = Inr (bp ! t)
               \<and> py_index out (int t) = Inr (c ! t) \<and> iv ! t = 0
               \<and> (\<exists>r v row. py_index li (int r) = Inr (sp ! t)
                      \<and> py_index ids (int r) = Inr row
                      \<and> py_set_item row (- 3) v = Inr (s ! t))))"

subsection \<open>alter\_box\_object\_association and diff\_index\_query\_box\<close>

definition label_positions :: "string \<Rightarrow> string list \<Rightarrow> nat list" where
  \<comment> \<open>\<open>[idx for idx, segment in enumerate(segments) if label in segment]\<close>\<close>
  "label_positions label segments =
     map fst (filter (\<lambda>(idx, segment). str_in label segment) (enumerate 0 segments))"

definition query_of :: "string \<Rightarrow> error + string" where
  \<comment> \<open>\<open>prompt.split(". ")[-1]\<close>\<close>
  "query_of prompt = py_index (str_split prompt ''. '') (- 1)"

definition context_segments :: "string \<Rightarrow> error + string list" where
  \<comment> \<open>\<open>prompt.split(". ")[0].split(", ")\<close>\<close>
  "context_segments prompt =
     rbind (py_index (str_split prompt ''. '') 0) (\<lambda>c. Inr (str_split c '', ''))"

definition base_query_box_pos_of :: "string \<Rightarrow> error + nat" where
  \<comment> \<open>the lookup for the base prompt; its segments are those of \<open>base_query\<close>, as written\<close>
  "base_query_box_pos_of base_prompt =
     rbind (query_of base_prompt) (\<lambda>base_query.
     rbind (py_index (str_split base_query '' '') 1) (\<lambda>base_query_box_label.
     rbind (context_segments base_query) (\<lambda>segments.
     rbind (py_index (label_positions base_query_box_label segments) 0) (\<lambda>base_query_box_pos.
       if int base_query_box_pos = - 1
       then Inl (ValueError ''Box label not found in the base prompt'')
       else Inr base_query_box_pos))))"

definition source_query_box_pos_of :: "string \<Rightarrow> error + nat" where
  \<comment> \<open>the lookup for the source prompt, over the segments of its context\<close>
  "source_query_box_pos_of source_prompt =
     rbind (query_of source_prompt) (\<lambda>source_query.
     rbind (py_index (str_split source_query '' '') 1) (\<lambda>source_query_box_label.
     rbind (context_segments source_prompt) (\<lambda>segments.
       py_index (label_positions source_query_box_label segments) 0)))"

function pick_source ::
  "string list \<Rightarrow> nat \<Rightarrow> nat list \<Rightarrow> rng \<Rightarrow> error + (string \<times> nat \<times> rng)" where
  \<comment> \<open>\<open>while source_query_box_pos == base_query_box_pos: ...\<close>; the test holds on entry\<close>
  "pick_source data base_query_box_pos random_choices g =
     (case random_choice random_choices g of
        Inl e \<Rightarrow> Inl e
      | Inr (random_source_index, g') \<Rightarrow>
          (case py_index data (int random_source_index) of
             Inl e \<Rightarrow> Inl e
           | Inr sentence \<Rightarrow>
               (case source_query_box_pos_of (base_prompt_of sentence) of
                  Inl e \<Rightarrow> Inl e
                | Inr source_query_box_pos \<Rightarrow>
                    if source_query_box_pos = base_query_box_pos
                    then pick_source data base_query_box_pos
                           (remove1 random_source_index random_choices) g'
                    else Inr (base_prompt_of sentence, source_query_box_pos, g'))))"
  by pat_completeness auto
termination
proof (relation "measure (\<lambda>(data, b, random_choices, g). length random_choices)")
  show "wf (measure (\<lambda>(data, b, random_choices, g). length random_choices))" by simp
next
  fix data :: "string list" and base_query_box_pos :: nat and random_choices :: "nat list"
    and g :: rng and x2 x y
  assume "random_choice random_choices g = Inr x2" and "(x, y) = x2"
  then have "random_choices \<noteq> []" and "x \<in> set random_choices"
    by (auto simp: random_choice_def randbelow_def split: if_splits)
  then show "((data, base_query_box_pos, remove1 x random_choices, y),
              (data, base_query_box_pos, random_choices, g))
             \<in> measure (\<lambda>(data, b, random_choices, g). length random_choices)"
    by (simp add: length_remove1)
qed

declare pick_source.simps [simp del]

definition negate_source_prompt :: "string \<Rightarrow> nat \<Rightarrow> error + string" where
  \<comment> \<open>the source prompt with \<open>" is in"\<close> of segment \<open>source_query_box_pos\<close> made \<open>" is not in"\<close>\<close>
  "negate_source_prompt source_prompt source_query_box_pos =
     rbind (context_segments source_prompt) (\<lambda>segments.
     rbind (py_index segments (int source_query_box_pos)) (\<lambda>source_segment.
       let source_segment = str_replace source_segment '' is in'' '' is not in'' in
     rbind (query_of source_prompt) (\<lambda>source_query.
       Inr (str_join '', '' (take source_query_box_pos segments)
            @ (if source_query_box_pos \<noteq> 0 then '', '' else [])
            @ source_segment
            @ (if int source_query_box_pos \<noteq> int (length segments) - 1 then '', '' else [])
            @ str_join '', '' (drop (source_query_box_pos + 1) segments)
            @ ''. '' @ source_query))))"

definition correct_object_token :: "tokenizer \<Rightarrow> string \<Rightarrow> nat \<Rightarrow> error + int" where
  \<comment> \<open>\<open>tokenizer.encode(base_prompt.split(". ")[0].split(", ")[k].split(" ")[1])[1]\<close>\<close>
  "correct_object_token tok base_prompt k =
     rbind (context_segments base_prompt) (\<lambda>segments.
     rbind (py_index segments (int k)) (\<lambda>segment.
     rbind (py_index (str_split segment '' '') 1) (\<lambda>correct_object.
       label_token tok correct_object)))"

type_synonym editor_state = "string list \<times> string list \<times> int list \<times> rng"

definition alter_box_object_association_item ::
  "tokenizer \<Rightarrow> nat \<Rightarrow> string list \<Rightarrow> string \<Rightarrow> editor_state \<Rightarrow> error + editor_state" where
  "alter_box_object_association_item tok num_samples data sentence st =
     (case st of (base_prompts, source_prompts, labels, g) \<Rightarrow>
      let base_prompt = base_prompt_of sentence in
      rbind (base_query_box_pos_of base_prompt) (\<lambda>base_query_box_pos.
        let random_choices = fst (random_shuffle [0..<num_samples] g);
            g1 = snd (random_shuffle [0..<num_samples] g)
        in
      rbind (pick_source data base_query_box_pos random_choices g1)
        (\<lambda>(source_prompt, source_query_box_pos, g2).
      rbind (negate_source_prompt source_prompt source_query_box_pos) (\<lambda>source_prompt.
      rbind (correct_object_token tok base_prompt source_query_box_pos) (\<lambda>l.
        Inr (base_prompts @ [base_prompt], source_prompts @ [source_prompt], labels @ [l],
             g2))))))"

definition tokenize_pairs ::
  "tokenizer \<Rightarrow> editor_state
     \<Rightarrow> error + (int list list \<times> int list \<times> int list list \<times> int list \<times> int list) \<times> rng" where
  \<comment> \<open>the end of both editors: ids and mask of either prompt list come from two calls\<close>
  "tokenize_pairs tok st =
     (case st of (base_prompts, source_prompts, labels, g) \<Rightarrow>
      rbind (batch tok base_prompts) (\<lambda>(base_input_tokens, _).
      rbind (batch tok base_prompts) (\<lambda>(_, base_mask).
      rbind (batch tok source_prompts) (\<lambda>(source_input_tokens, _).
      rbind (batch tok source_prompts) (\<lambda>(_, source_mask).
        Inr ((base_input_tokens, last_token_indices_of base_mask, source_input_tokens,
              last_token_indices_of source_mask, labels), g))))))"

definition alter_box_object_association ::
  "tokenizer \<Rightarrow> nat \<Rightarrow> string list \<Rightarrow> rng
     \<Rightarrow> error + (int list list \<times> int list \<times> int list list \<times> int list \<times> int list) \<times> rng" where
  "alter_box_object_association tok num_samples data g =
     (if \<not> num_samples \<le> length data then Inl AssertionError
      else
        rbind (fold_res (alter_box_object_association_item tok num_samples data)
                 (take num_samples data) ([], [], [], g))
          (tokenize_pairs tok))"



subsection \<open>A small tokenizer for concrete runs\<close>

text \<open>
  One token per space-separated word after a start marker \<open>1\<close>, the id of a word being
  three more than the code of its first character; a batch is padded on the right with \<open>0\<close>.
\<close>

definition toy_token :: "string \<Rightarrow> int" where
  "toy_token w = (case w of [] \<Rightarrow> 2 | c # _ \<Rightarrow> 3 + int (of_char c))"

definition toy_encode :: "string \<Rightarrow> int list" where
  "toy_encode s = 1 # map toy_token (str_split s '' '')"

definition toy_batch :: "string list \<Rightarrow> error + (int list list \<times> int list list)" where
  "toy_batch ps =
     (let rows = map toy_encode ps; n = foldr max (map length rows) 0
      in Inr (map (\<lambda>r. r @ replicate (n - length r) 0) rows,
              map (\<lambda>r. replicate (length r) 1 @ replicate (n - length r) 0) rows))"

definition toy_tokenizer :: tokenizer where
  "toy_tokenizer = \<lparr>encode = toy_encode, batch = toy_batch\<rparr>"

subsection \<open>Sentences for concrete runs\<close>

definition sentence_0 :: string where
  "sentence_0 = ''The a is in Box 0. Box 0 contains a.''"

definition sentence_1 :: string where
  "sentence_1 = ''The b is in Box 1. Box 1 contains b.''"

definition sentence_z :: string where
  \<comment> \<open>the label of the query, \<open>Z\<close>, is the label of no box of the context\<close>
  "sentence_z = ''The a is in Box X, the b is in Box Y. Box Z contains b.''"

definition sentence_cd :: string where
  "sentence_cd = ''The c is in Box X, the d is in Box Y. Box Y contains d.''"


section \<open>Properties of analysis\_utils.py\<close>

lemma py_index_Inl: "py_index xs i = Inl e \<Longrightarrow> e = IndexError"
  by (simp add: py_index_def split: if_splits)

lemma tensor_at_Inl: "tensor_at t b p = Inl e \<Longrightarrow> e = IndexError"
  by (auto simp: tensor_at_def rbind_def dest: py_index_Inl split: sum.splits)

lemma lookup_batch_size: "lookup_global ''batch_size'' = Inl (NameError ''batch_size'')"
  by (simp add: lookup_global_def module_globals_def)

text \<open>
  Claim C3. The claim says that \<open>perf_metric\<close> returns the normalised difference of
  log-probabilities. The code computes that quotient into \<open>score\<close> and then evaluates
  \<open>score / batch_size\<close>, where \<open>batch_size\<close> is bound nowhere: on every input the call
  ends in an exception (an \<open>IndexError\<close> from a subscript out of range, else the
  \<open>NameError\<close>) and never returns a value.
\<close>

theorem perf_metric_raises:
  "perf_metric pl a bl sl bp sp = Inl IndexError
   \<or> perf_metric pl a bl sl bp sp = Inl (NameError ''batch_size'')"
  unfolding perf_metric_def Let_def lookup_batch_size
  by (auto simp: rbind_def dest!: py_index_Inl tensor_at_Inl split: sum.splits)

text \<open>
  Claim C7. The claim says that with equal clean and corrupted log-probabilities of the
  answer (a zero denominator) \<open>perf_metric\<close> reports an explicit NaN result. At such an
  input (all three tensors one position with two equal logits) the code reports no result
  at all: it raises the \<open>NameError\<close> of C3.
\<close>

theorem perf_metric_zero_denominator:
  "perf_metric [[[0, 0]]] 0 [[[0, 0]]] [[[0, 0]]] 0 0 = Inl (NameError ''batch_size'')"
  by (simp add: perf_metric_def tensor_at_def py_index_def log_softmax_def rbind_def
      lookup_batch_size)

lemma concat_rect_length:
  "\<forall>r\<in>set g. length r = c \<Longrightarrow> length (concat g) = length g * c"
  by (induction g) auto

lemma concat_rect_nth:
  "\<forall>r\<in>set g. length r = c \<Longrightarrow> i < length g * c \<Longrightarrow>
     concat g ! i = g ! (i div c) ! (i mod c)"
proof (induction g arbitrary: i)
  case Nil
  then show ?case by simp
next
  case (Cons r g)
  have len: "length r = c" using Cons.prems(1) by simp
  show ?case
  proof (cases "i < c")
    case True
    then show ?thesis using len by (simp add: nth_append)
  next
    case False
    then have ge: "c \<le> i" by simp
    have cpos: "0 < c" using Cons.prems(2) by (cases c) auto
    have lt: "i - c < length g * c" using Cons.prems(2) ge by simp
    have "concat (r # g) ! i = concat g ! (i - c)"
      using False len by (simp add: nth_append)
    also have "\<dots> = g ! ((i - c) div c) ! ((i - c) mod c)"
      using Cons.IH [OF _ lt] Cons.prems(1) by simp
    also have "\<dots> = (r # g) ! (i div c) ! (i mod c)"
      using ge cpos by (simp add: le_div_geq le_mod_geq)
    finally show ?thesis .
  qed
qed

lemma topk_key_le:
  "topk_key tie vals largest i \<le> topk_key tie vals largest j
     \<Longrightarrow> no_worse largest (vals ! i) (vals ! j)"
  by (auto simp: topk_key_def no_worse_def less_eq_prod_def split: if_splits)

lemma sort_key_no_worse:
  assumes p: "p < length vals" and q: "q < length vals"
    and notin: "q \<notin> set (take (Suc p) (sort_key (topk_key tie vals largest) [0..<length vals]))"
  shows "no_worse largest
     (vals ! (sort_key (topk_key tie vals largest) [0..<length vals] ! p)) (vals ! q)"
proof -
  let ?key = "topk_key tie vals largest"
  let ?s = "sort_key ?key [0..<length vals]"
  have len: "length ?s = length vals" by simp
  have "q \<in> set ?s" using q by simp
  then obtain j where j: "j < length ?s" "?s ! j = q" by (metis in_set_conv_nth)
  have "\<not> j < Suc p"
  proof
    assume "j < Suc p"
    then have "?s ! j \<in> set (take (Suc p) ?s)"
      using j(1) by (simp add: in_set_conv_nth del: length_sort) (metis nth_take)
    with notin j(2) show False by simp
  qed
  then have pj: "p < j" by simp
  have "sorted (map ?key ?s)" by (rule sorted_sort_key)
  then have "?key (?s ! p) \<le> ?key (?s ! j)"
    using pj j(1) by (auto simp: sorted_iff_nth_mono dest!: spec[of _ p] spec[of _ j])
  then show ?thesis using j(2) topk_key_le by blast
qed

lemma topk_sorted_contract: "topk_contract (topk_sorted tie)"
  unfolding topk_contract_def
proof (intro allI impI)
  fix vals :: "real list" and k largest
  assume k: "k \<le> length vals"
  let ?s = "sort_key (topk_key tie vals largest) [0..<length vals]"
  let ?idx = "take k ?s"
  have res: "topk_sorted tie vals k largest = Inr ?idx" using k by (simp add: topk_sorted_def)
  have lidx: "length ?idx = k" using k by simp
  have didx: "distinct ?idx" by (simp add: distinct_take)
  have each: "?idx ! p < length vals
       \<and> (\<forall>q<length vals. q \<notin> set (take (Suc p) ?idx)
             \<longrightarrow> no_worse largest (vals ! (?idx ! p)) (vals ! q))" if p: "p < k" for p
  proof -
    have pn: "p < length vals" using p k by simp
    have ip: "?idx ! p = ?s ! p" using p by simp
    have "?s ! p \<in> set ?s" using pn by (simp del: set_sort)
    then have bound: "?s ! p < length vals" by simp
    have tk: "take (Suc p) ?idx = take (Suc p) ?s" using p by (simp add: min_def)
    have b: "no_worse largest (vals ! (?s ! p)) (vals ! q)"
      if "q < length vals" "q \<notin> set (take (Suc p) ?idx)" for q
      using sort_key_no_worse [OF pn that(1)] that(2) tk by simp
    show ?thesis using bound b ip by simp
  qed
  show "\<exists>idx. topk_sorted tie vals k largest = Inr idx \<and> length idx = k \<and> distinct idx
           \<and> (\<forall>p<k. idx ! p < length vals
                 \<and> (\<forall>q<length vals. q \<notin> set (take (Suc p) idx)
                       \<longrightarrow> no_worse largest (vals ! (idx ! p)) (vals ! q)))"
    using res lidx didx each by blast
qed

lemma topk_high_contract: "topk_contract topk_high"
  unfolding topk_high_def by (rule topk_sorted_contract)

lemma topk_low_contract: "topk_contract topk_low"
  unfolding topk_low_def by (rule topk_sorted_contract)

lemma zip_div_mod:
  "map (\<lambda>(r, c). [r, c]) (zip (map f xs) (map h xs)) = map (\<lambda>i. [f i, h i]) xs"
  by (induction xs) auto

lemma upt_0_4: "[0..<4] = [0, Suc 0, 2, 3]"
  by (simp add: upt_rec)

lemma topk_untied:
  assumes tk: "topk_contract tk"
  shows "tk [1, 5, 9, 2] 2 True = Inr [2, 1]"
proof -
  let ?vals = "[1, 5, 9, 2 :: real]"
  from tk [unfolded topk_contract_def, rule_format, of 2 ?vals True]
  obtain idx where r: "tk ?vals 2 True = Inr idx" and l: "length idx = 2" and d: "distinct idx"
    and e: "\<forall>p<2. idx ! p < length ?vals
                 \<and> (\<forall>q<length ?vals. q \<notin> set (take (Suc p) idx)
                       \<longrightarrow> no_worse True (?vals ! (idx ! p)) (?vals ! q))"
    by auto
  from l obtain a b where idx: "idx = [a, b]"
    by (auto simp: length_Suc_conv numeral_2_eq_2)
  have ab: "a \<noteq> b" using d idx by simp
  have a4: "a < 4" using e [rule_format, of 0] idx by simp
  have b4: "b < 4" using e [rule_format, of 1] idx by simp
  have a2: "a \<noteq> 2 \<longrightarrow> 9 \<le> ?vals ! a"
    using e [rule_format, of 0, THEN conjunct2, rule_format, of 2] idx
    by (simp add: no_worse_def)
  have "a = 0 \<or> a = 1 \<or> a = 2 \<or> a = 3" using a4 by arith
  then have a: "a = 2" using a2 by auto
  have b1: "b \<noteq> 1 \<longrightarrow> 5 \<le> ?vals ! b"
    using e [rule_format, of 1, THEN conjunct2, rule_format, of 1] idx a
    by (simp add: no_worse_def)
  have "b = 0 \<or> b = 1 \<or> b = 2 \<or> b = 3" using b4 by arith
  then have b: "b = 1" using b1 ab a by auto
  show ?thesis using r idx a b by simp
qed

lemma topk_high_tied: "topk_high [5, 5, 1, 2] (Suc 0) True = Inr [Suc 0]"
  by (simp add: topk_high_def topk_sorted_def topk_key_def upt_0_4 less_eq_prod_def)

lemma topk_low_tied: "topk_low [5, 5, 1, 2] (Suc 0) True = Inr [0]"
  by (simp add: topk_low_def topk_sorted_def topk_key_def upt_0_4 less_eq_prod_def)

text \<open>
  Claim C4, as amended. Whatever \<open>torch.topk\<close> does within its contract, for a rectangular
  grid and \<open>k\<close> no larger than its size \<open>compute_topk_components\<close> returns \<open>k\<close> distinct
  entries as \<open>[row, column]\<close> pairs, each obtained from a flattened index by division and
  remainder on the column count and addressing the entry of that flattened index; the
  \<open>p\<close>-th pair holds a value no smaller (no larger, when \<open>largest\<close> is false) than that of
  every entry not among the first \<open>p + 1\<close>. Nothing is said on equal entries. For the grid
  \<open>[[1,5],[9,2]]\<close>, \<open>k = 2\<close>, largest first, the result is \<open>[[1,0],[0,1]]\<close>.
\<close>

theorem compute_topk_components_ranked:
  assumes tk: "topk_contract tk"
    and rect: "\<forall>r\<in>set g. length r = ncols g" and k: "k \<le> length (concat g)"
  shows "(\<exists>idx. compute_topk_components tk g k largest
              = Inr (map (\<lambda>i. [i div ncols g, i mod ncols g]) idx)
          \<and> length idx = k \<and> distinct idx
          \<and> (\<forall>p<k. idx ! p div ncols g < length g \<and> idx ! p mod ncols g < ncols g
                \<and> g ! (idx ! p div ncols g) ! (idx ! p mod ncols g) = concat g ! (idx ! p)
                \<and> (\<forall>q<length (concat g). q \<notin> set (take (Suc p) idx)
                      \<longrightarrow> no_worse largest (concat g ! (idx ! p)) (concat g ! q))))
       \<and> compute_topk_components tk [[1, 5], [9, 2]] 2 True = Inr [[1, 0], [0, 1]]"
proof -
  let ?vals = "concat g"
  let ?c = "ncols g"
  have len: "length ?vals = length g * ?c" using rect by (rule concat_rect_length)
  from tk [unfolded topk_contract_def, rule_format, OF k, of largest]
  obtain idx where r: "tk ?vals k largest = Inr idx" and l: "length idx = k"
    and d: "distinct idx"
    and e: "\<forall>p<k. idx ! p < length ?vals
                 \<and> (\<forall>q<length ?vals. q \<notin> set (take (Suc p) idx)
                       \<longrightarrow> no_worse largest (?vals ! (idx ! p)) (?vals ! q))"
    by blast
  have res: "compute_topk_components tk g k largest = Inr (map (\<lambda>i. [i div ?c, i mod ?c]) idx)"
    using r by (simp add: compute_topk_components_def rbind_def zip_div_mod)
  have each: "idx ! p div ?c < length g \<and> idx ! p mod ?c < ?c
                \<and> g ! (idx ! p div ?c) ! (idx ! p mod ?c) = ?vals ! (idx ! p)
                \<and> (\<forall>q<length ?vals. q \<notin> set (take (Suc p) idx)
                      \<longrightarrow> no_worse largest (?vals ! (idx ! p)) (?vals ! q))" if p: "p < k" for p
  proof -
    have bound: "idx ! p < length ?vals" using e p by blast
    then have bound': "idx ! p < length g * ?c" using len by simp
    then have cpos: "0 < ?c" by (cases "?c") auto
    have dv: "idx ! p div ?c < length g"
      using bound' cpos by (simp add: less_mult_imp_div_less)
    have m: "idx ! p mod ?c < ?c" using cpos by simp
    have v: "g ! (idx ! p div ?c) ! (idx ! p mod ?c) = ?vals ! (idx ! p)"
      using concat_rect_nth [OF rect bound'] by simp
    show ?thesis using dv m v e p by blast
  qed
  have ex: "compute_topk_components tk [[1, 5], [9, 2]] 2 True = Inr [[1, 0], [0, 1]]"
  proof -
    have c: "concat [[1, 5], [9, 2 :: real]] = [1, 5, 9, 2]" by simp
    have n: "ncols [[1, 5], [9, 2 :: real]] = 2" by (simp add: ncols_def)
    show ?thesis
      unfolding compute_topk_components_def c n topk_untied [OF tk] by (simp add: rbind_def)
  qed
  show ?thesis using res l d each ex by blast
qed

theorem compute_topk_components_ranked_witness:
  "topk_contract topk_high
   \<and> list_all (\<lambda>r. length r = ncols [[5, 5], [1, 2]]) [[5, 5], [1, 2 :: real]]
   \<and> (1::nat) \<le> length (concat [[5, 5], [1, 2 :: real]])
   \<and> (\<exists>idx. compute_topk_components topk_high [[5, 5], [1, 2]] 1 True
              = Inr (map (\<lambda>i. [i div 2, i mod 2]) idx) \<and> length idx = 1 \<and> distinct idx)
   \<and> compute_topk_components topk_high [[1, 5], [9, 2]] 2 True = Inr [[1, 0], [0, 1]]"
proof -
  have h1: "\<forall>r\<in>set [[5, 5], [1, 2 :: real]]. length r = ncols [[5, 5], [1, 2]]"
    by (simp add: ncols_def)
  have h2: "(1::nat) \<le> length (concat [[5, 5], [1, 2 :: real]])" by simp
  have n: "ncols [[5, 5], [1, 2 :: real]] = 2" by (simp add: ncols_def)
  have "(\<exists>idx. compute_topk_components topk_high [[5, 5], [1, 2]] 1 True
              = Inr (map (\<lambda>i. [i div 2, i mod 2]) idx) \<and> length idx = 1 \<and> distinct idx)
   \<and> compute_topk_components topk_high [[1, 5], [9, 2]] 2 True = Inr [[1, 0], [0, 1]]"
    using compute_topk_components_ranked [OF topk_high_contract h1 h2, of True]
    unfolding n by blast
  then show ?thesis using topk_high_contract h1 h2 by (simp add: list_all_iff)
qed

text \<open>
  Claim C4 as stated fails. The claim says that a tie goes to the lower flattened index.
  \<open>compute_topk_components\<close> hands the flattened grid to \<open>torch.topk\<close> and adds no rule
  of its own, and \<open>torch.topk\<close> compares values only. In the grid \<open>[[5,5],[1,2]]\<close> the
  entries at flattened indices 0 and 1 tie for the largest; with a \<open>torch.topk\<close> that
  returns index 1 for them (as the selection by \<open>std::nth_element\<close> in its CPU kernel does
  on this tensor), and \<open>k = 1\<close>, the function returns \<open>[[0,1]]\<close>, where the claim requires
  \<open>[[0,0]]\<close>. A \<open>torch.topk\<close> that returns index 0 keeps the same contract, so the code
  alone decides neither.
\<close>

theorem compute_topk_components_tie_to_higher_index:
  "compute_topk_components topk_high [[5, 5], [1, 2]] 1 True = Inr [[0, 1]]"
  by (simp add: compute_topk_components_def topk_high_tied rbind_def ncols_def numeral_2_eq_2)

lemma compute_topk_components_tie_to_lower_index:
  "compute_topk_components topk_low [[5, 5], [1, 2]] 1 True = Inr [[0, 0]]"
  by (simp add: compute_topk_components_def topk_low_tied rbind_def ncols_def numeral_2_eq_2)

section \<open>Properties of data\_utils.py\<close>

lemma rbind_simps: "rbind (Inl e) f = Inl e" "rbind (Inr x) f = f x"
  by (simp_all add: rbind_def)

lemma rbind_eq_Inr: "rbind m f = Inr y \<longleftrightarrow> (\<exists>x. m = Inr x \<and> f x = Inr y)"
  by (cases m) (simp_all add: rbind_def)

lemma py_index_nat: "i < length xs \<Longrightarrow> py_index xs (int i) = Inr (xs ! i)"
  by (simp add: py_index_def)

lemma py_index_nat_Inr: "py_index xs (int i) = Inr x \<Longrightarrow> i < length xs \<and> x = xs ! i"
  by (auto simp: py_index_def split: if_splits)

lemma map_res_Inr:
  "map_res f xs = Inr ys \<Longrightarrow> length ys = length xs \<and> (\<forall>k<length xs. f (xs ! k) = Inr (ys ! k))"
proof (induction xs arbitrary: ys)
  case Nil
  then show ?case by simp
next
  case (Cons x xs)
  from Cons.prems obtain y ys' where y: "f x = Inr y" and r: "map_res f xs = Inr ys'"
    and ys: "ys = y # ys'"
    by (auto simp: rbind_eq_Inr)
  from Cons.IH [OF r] have ih: "length ys' = length xs" "\<forall>k<length xs. f (xs ! k) = Inr (ys' ! k)"
    by simp_all
  show ?case using y ys ih by (auto simp: nth_Cons split: nat.splits)
qed

lemma map_res_total:
  "(\<forall>x\<in>set xs. \<exists>y. f x = Inr y) \<Longrightarrow> \<exists>ys. map_res f xs = Inr ys"
  by (induction xs) (auto simp: rbind_def)

lemma sum_mask_le:
  "set row \<subseteq> {0, 1 :: int} \<Longrightarrow> sum_list row \<le> int (length row)"
  by (induction row) auto

lemma concat_pairs_length: "length (concat (map (\<lambda>x. [a x, b x]) xs)) = 2 * length xs"
  by (induction xs) auto

lemma concat_pairs_nth:
  "k < length xs \<Longrightarrow> concat (map (\<lambda>x. [a x, b x]) xs) ! (2 * k) = a (xs ! k)
     \<and> concat (map (\<lambda>x. [a x, b x]) xs) ! (2 * k + 1) = b (xs ! k)"
proof (induction xs arbitrary: k)
  case Nil
  then show ?case by simp
next
  case (Cons x xs)
  show ?case
  proof (cases k)
    case 0
    then show ?thesis by simp
  next
    case (Suc k')
    then have "k' < length xs" using Cons.prems by simp
    from Cons.IH [OF this] show ?thesis using Suc by simp
  qed
qed

lemma range_step_2: "even n \<Longrightarrow> range_step n 2 = map (\<lambda>q. 2 * q) [0..<n div 2]"
  by (auto simp: range_step_def elim!: evenE)


lemma change_box_label_item_Inr:
  assumes "change_box_label_item tok s = Inr it"
  shows "\<exists>label l. label_of s = Inr label \<and> label_token tok label = Inr l
           \<and> it = ([base_prompt_of s, relabel_digits (base_prompt_of s)], [l, l])"
  using assms by (auto simp: change_box_label_item_def Let_def rbind_eq_Inr)

lemma change_box_label_Inr:
  assumes "change_box_label tok N data = Inr (ids, li, out)"
  shows "N \<le> length data \<and> (\<exists>items amask.
           map_res (change_box_label_item tok) (take N data) = Inr items
           \<and> batch tok (concat (map fst items)) = Inr (ids, amask)
           \<and> li = last_token_indices_of amask \<and> out = concat (map snd items))"
  using assms
  by (auto simp: change_box_label_def Let_def rbind_eq_Inr split: if_splits)

lemma change_box_label_items:
  assumes N: "N \<le> length data"
    and items: "map_res (change_box_label_item tok) (take N data) = Inr items"
  shows "length items = N"
    and "map fst items = map (\<lambda>s. [base_prompt_of s, relabel_digits (base_prompt_of s)]) (take N data)"
    and "map snd items = map (\<lambda>it. [hd (snd it), hd (snd it)]) items"
    and "\<forall>k<N. \<exists>label. label_of (data ! k) = Inr label
             \<and> label_token tok label = Inr (hd (snd (items ! k)))"
proof -
  from map_res_Inr [OF items] N
  have len: "length items = N"
    and each: "\<forall>k<N. change_box_label_item tok (data ! k) = Inr (items ! k)"
    by simp_all
  have shape: "\<exists>label l. label_of (data ! k) = Inr label \<and> label_token tok label = Inr l
           \<and> items ! k = ([base_prompt_of (data ! k), relabel_digits (base_prompt_of (data ! k))], [l, l])"
    if "k < N" for k
    using each that change_box_label_item_Inr by blast
  show "length items = N" by (rule len)
  show "map fst items = map (\<lambda>s. [base_prompt_of s, relabel_digits (base_prompt_of s)]) (take N data)"
  proof (rule nth_equalityI)
    show "length (map fst items) = length (map (\<lambda>s. [base_prompt_of s, relabel_digits (base_prompt_of s)]) (take N data))"
      using len N by simp
  next
    fix k assume "k < length (map fst items)"
    then have k: "k < N" using len by simp
    from shape [OF k] show "map fst items ! k = map (\<lambda>s. [base_prompt_of s, relabel_digits (base_prompt_of s)]) (take N data) ! k"
      using k len N by auto
  qed
  show "map snd items = map (\<lambda>it. [hd (snd it), hd (snd it)]) items"
  proof (rule nth_equalityI)
    show "length (map snd items) = length (map (\<lambda>it. [hd (snd it), hd (snd it)]) items)" by simp
  next
    fix k assume "k < length (map snd items)"
    then have k: "k < N" using len by simp
    from shape [OF k] show "map snd items ! k = map (\<lambda>it. [hd (snd it), hd (snd it)]) items ! k"
      using k len by auto
  qed
  show "\<forall>k<N. \<exists>label. label_of (data ! k) = Inr label
             \<and> label_token tok label = Inr (hd (snd (items ! k)))"
  proof (intro allI impI)
    fix k assume k: "k < N"
    from shape [OF k] show "\<exists>label. label_of (data ! k) = Inr label
             \<and> label_token tok label = Inr (hd (snd (items ! k)))" by auto
  qed
qed


lemma map_res_all_Inr: "(\<forall>x\<in>set xs. f x = Inr (h x)) \<Longrightarrow> map_res f xs = Inr (map h xs)"
  by (induction xs) (auto simp: rbind_def)

lemma py_index_succ: "i + 1 < length xs \<Longrightarrow> py_index xs (int i + 1) = Inr (xs ! (i + 1))"
  by (simp add: py_index_def nat_add_distrib)

text \<open>
  Claim C9. For an even \<open>N\<close>, whenever the generator \<open>change_box_label\<close> succeeds (with a
  tokenizer that returns one row per prompt), \<open>change_query_box_pos\<close> succeeds and returns
  exactly \<open>N div 2\<close> pairs: pair \<open>k\<close> is made of rows \<open>2k\<close> and \<open>2k + 1\<close> of the generator's
  output, which are the tokenized base prompt of dataset sentence \<open>k\<close> and its digit-relabelled
  copy, and its counterfactual output id is the token of that sentence's own final word.
\<close>

theorem change_query_box_pos_pairs:
  assumes wf: "wf_tokenizer tok" and ev: "even N"
    and gen: "change_box_label tok N data = Inr (input_ids, last_token_indices, output_ids)"
  shows "\<exists>b bp s sp c. change_query_box_pos tok N data = Inr (b, bp, s, sp, c)
      \<and> length b = N div 2 \<and> length bp = N div 2 \<and> length s = N div 2
      \<and> length sp = N div 2 \<and> length c = N div 2
      \<and> (\<forall>k<N div 2. b ! k = input_ids ! (2 * k) \<and> bp ! k = last_token_indices ! (2 * k)
             \<and> s ! k = input_ids ! (2 * k + 1) \<and> sp ! k = last_token_indices ! (2 * k + 1)
             \<and> c ! k = output_ids ! (2 * k))
      \<and> (\<exists>prompts amask. batch tok prompts = Inr (input_ids, amask) \<and> length prompts = 2 * N
             \<and> (\<forall>k<N. prompts ! (2 * k) = base_prompt_of (data ! k)
                    \<and> prompts ! (2 * k + 1) = relabel_digits (base_prompt_of (data ! k))
                    \<and> (\<exists>label. label_of (data ! k) = Inr label
                          \<and> label_token tok label = Inr (output_ids ! (2 * k)))))"
proof -
  from change_box_label_Inr [OF gen] obtain items amask where N: "N \<le> length data"
    and items: "map_res (change_box_label_item tok) (take N data) = Inr items"
    and bt: "batch tok (concat (map fst items)) = Inr (input_ids, amask)"
    and li: "last_token_indices = last_token_indices_of amask"
    and out: "output_ids = concat (map snd items)"
    by blast
  note it = change_box_label_items [OF N items]
  let ?prompts = "concat (map fst items)"
  have lp: "length ?prompts = 2 * N"
    using it(2) N by (simp add: concat_pairs_length)
  from wf bt have lids: "length input_ids = 2 * N" and lmask: "length amask = 2 * N"
    using lp by (auto simp: wf_tokenizer_def)
  have lli: "length last_token_indices = 2 * N"
    using li lmask by (simp add: last_token_indices_of_def)
  have lout: "length output_ids = 2 * N"
    using out it(1) it(3) by (simp add: concat_pairs_length)
  let ?row = "\<lambda>q. (input_ids ! (2 * q), last_token_indices ! (2 * q), input_ids ! (2 * q + 1),
                    last_token_indices ! (2 * q + 1), output_ids ! (2 * q))"
  let ?f = "\<lambda>i. rbind (py_index input_ids (int i)) (\<lambda>b.
         rbind (py_index last_token_indices (int i)) (\<lambda>bp.
         rbind (py_index input_ids (int i + 1)) (\<lambda>s.
         rbind (py_index last_token_indices (int i + 1)) (\<lambda>sp.
         rbind (py_index output_ids (int i)) (\<lambda>c.
           Inr (b, bp, s, sp, c))))))"
  have rows: "map_res ?f (range_step N 2) = Inr (map ?row [0..<N div 2])"
  proof -
    have "?f i = Inr (?row (i div 2))" if "i \<in> set (range_step N 2)" for i
    proof -
      from that ev obtain q where q: "i = 2 * q" "q < N div 2"
        by (auto simp: range_step_2)
      then have b: "i + 1 < 2 * N" and a: "i < 2 * N" and e: "2 * (i div 2) = i" by auto
      have 1: "py_index input_ids (int i) = Inr (input_ids ! i)"
        using a lids by (simp only: py_index_nat)
      have 2: "py_index last_token_indices (int i) = Inr (last_token_indices ! i)"
        using a lli by (simp only: py_index_nat)
      have 3: "py_index input_ids (int i + 1) = Inr (input_ids ! (i + 1))"
        using b lids by (simp only: py_index_succ)
      have 4: "py_index last_token_indices (int i + 1) = Inr (last_token_indices ! (i + 1))"
        using b lli by (simp only: py_index_succ)
      have 5: "py_index output_ids (int i) = Inr (output_ids ! i)"
        using a lout by (simp only: py_index_nat)
      show ?thesis unfolding 1 2 3 4 5 rbind_simps e ..
    qed
    then have "map_res ?f (range_step N 2) = Inr (map (\<lambda>i. ?row (i div 2)) (range_step N 2))"
      by (intro map_res_all_Inr) blast
    also have "map (\<lambda>i. ?row (i div 2)) (range_step N 2) = map ?row [0..<N div 2]"
      using ev by (simp add: range_step_2 comp_def)
    finally show ?thesis .
  qed
  have res: "change_query_box_pos tok N data =
      Inr (map (\<lambda>q. input_ids ! (2 * q)) [0..<N div 2],
           map (\<lambda>q. last_token_indices ! (2 * q)) [0..<N div 2],
           map (\<lambda>q. input_ids ! (2 * q + 1)) [0..<N div 2],
           map (\<lambda>q. last_token_indices ! (2 * q + 1)) [0..<N div 2],
           map (\<lambda>q. output_ids ! (2 * q)) [0..<N div 2])"
    unfolding change_query_box_pos_def gen rbind_simps prod.case rows
    by (simp add: comp_def)
  have pr: "prompts_ok"
    if "prompts_ok = (\<forall>k<N. ?prompts ! (2 * k) = base_prompt_of (data ! k)
                    \<and> ?prompts ! (2 * k + 1) = relabel_digits (base_prompt_of (data ! k))
                    \<and> (\<exists>label. label_of (data ! k) = Inr label
                          \<and> label_token tok label = Inr (output_ids ! (2 * k))))" for prompts_ok
    unfolding that
  proof (intro allI impI)
    fix k assume k: "k < N"
    then have kd: "k < length (take N data)" using N by simp
    have ki: "k < length items" using k it(1) by simp
    from concat_pairs_nth [OF kd, of base_prompt_of "\<lambda>s. relabel_digits (base_prompt_of s)"]
    have p: "?prompts ! (2 * k) = base_prompt_of (data ! k)"
      "?prompts ! (2 * k + 1) = relabel_digits (base_prompt_of (data ! k))"
      using it(2) k by simp_all
    from concat_pairs_nth [OF ki, of "\<lambda>it. hd (snd it)" "\<lambda>it. hd (snd it)"]
    have o: "output_ids ! (2 * k) = hd (snd (items ! k))"
      using out it(3) by simp
    from it(4) k obtain label where "label_of (data ! k) = Inr label"
      "label_token tok label = Inr (hd (snd (items ! k)))" by blast
    then show "?prompts ! (2 * k) = base_prompt_of (data ! k)
                    \<and> ?prompts ! (2 * k + 1) = relabel_digits (base_prompt_of (data ! k))
                    \<and> (\<exists>label. label_of (data ! k) = Inr label
                          \<and> label_token tok label = Inr (output_ids ! (2 * k)))"
      using p o by auto
  qed
  show ?thesis
    unfolding res
    apply (intro exI conjI)
              apply (rule refl)
             apply simp
            apply simp
           apply simp
          apply simp
         apply simp
        apply simp
       apply (rule bt)
      apply (rule lp)
     apply (rule pr)
     apply (rule refl)
    done
qed

lemma foldr_max_ge: "x \<in> set xs \<Longrightarrow> x \<le> foldr max xs (0::nat)"
  by (induction xs) (auto simp: max_def)

lemma wf_toy_tokenizer: "wf_tokenizer toy_tokenizer"
proof -
  have "length ids = length ps \<and> length amask = length ps
        \<and> (\<forall>r<length ps. length (amask ! r) = length (ids ! r)
               \<and> length (ids ! r) = length (ids ! 0)
               \<and> set (amask ! r) \<subseteq> {0, 1})"
    if "toy_batch ps = Inr (ids, amask)" for ps ids amask
  proof -
    let ?rows = "map toy_encode ps"
    let ?n = "foldr max (map length ?rows) 0"
    from that have ids: "ids = map (\<lambda>r. r @ replicate (?n - length r) 0) ?rows"
      and am: "amask = map (\<lambda>r. replicate (length r) 1 @ replicate (?n - length r) 0) ?rows"
      by (simp_all add: toy_batch_def Let_def)
    have le: "length (toy_encode (ps ! r)) \<le> ?n" if "r < length ps" for r
    proof (rule foldr_max_ge)
      have "ps ! r \<in> set ps" using that by simp
      then show "length (toy_encode (ps ! r)) \<in> set (map length ?rows)" by force
    qed
    show ?thesis
    proof (intro conjI allI impI)
      show "length ids = length ps" using ids by simp
      show "length amask = length ps" using am by simp
    next
      fix r assume r: "r < length ps"
      then have z: "0 < length ps" by linarith
      show "length (amask ! r) = length (ids ! r)" using r ids am by simp
      show "length (ids ! r) = length (ids ! 0)" using r z ids le [OF r] le [OF z] by simp
      show "set (amask ! r) \<subseteq> {0, 1}" using r am by auto
    qed
  qed
  then show ?thesis
    unfolding wf_tokenizer_def toy_tokenizer_def by simp
qed


lemma last_token_indices_bounds:
  assumes wf: "wf_tokenizer tok" and bt: "batch tok ps = Inr (ids, amask)"
  shows "length (last_token_indices_of amask) = length ids
     \<and> (\<forall>r<length ids. last_token_indices_of amask ! r = sum_list (amask ! r) - 1
            \<and> last_token_indices_of amask ! r < int (length (ids ! r)))"
proof (intro conjI allI impI)
  from wf bt have l: "length ids = length ps" "length amask = length ps"
    and rows: "\<forall>r<length ps. length (amask ! r) = length (ids ! r) \<and> set (amask ! r) \<subseteq> {0, 1}"
    unfolding wf_tokenizer_def by blast+
  show "length (last_token_indices_of amask) = length ids"
    using l by (simp add: last_token_indices_of_def)
  fix r assume r: "r < length ids"
  then have ra: "r < length amask" using l by simp
  show "last_token_indices_of amask ! r = sum_list (amask ! r) - 1"
    using ra by (simp add: last_token_indices_of_def)
  have "sum_list (amask ! r) \<le> int (length (amask ! r))"
    using rows r l by (intro sum_mask_le) simp
  then show "last_token_indices_of amask ! r < int (length (ids ! r))"
    using rows r l ra by (simp add: last_token_indices_of_def)
qed

lemma tokenize_pairs_Inr:
  assumes "tokenize_pairs tok (bps, sps, labels, g) = Inr ((bi, bl, si, sl, out), g')"
  shows "\<exists>bm sm. batch tok bps = Inr (bi, bm) \<and> batch tok sps = Inr (si, sm)
           \<and> bl = last_token_indices_of bm \<and> sl = last_token_indices_of sm
           \<and> out = labels \<and> g' = g"
  using assms by (auto simp: tokenize_pairs_def rbind_eq_Inr)

text \<open>
  Claim C5. With a tokenizer that keeps the contract of a padded batch, every row of the
  batch an editor tokenizes has its last-token index equal to the sum of the row's
  attention mask minus one, and that index is below the padded length of the row. Shown
  for the batch of \<open>change_box_label\<close> and for the base and source batches of
  \<open>alter_box_object_association\<close>; every editor computes the index by the same expression.
\<close>

theorem last_token_index_invariant:
  assumes wf: "wf_tokenizer tok"
  shows "(change_box_label tok n data = Inr (ids, li, out) \<longrightarrow>
           (\<exists>prompts amask. batch tok prompts = Inr (ids, amask) \<and> length li = length ids
              \<and> (\<forall>r<length ids. li ! r = sum_list (amask ! r) - 1
                     \<and> li ! r < int (length (ids ! r)))))
       \<and> (alter_box_object_association tok n data g = Inr ((bi, bl, si, sl, labels), g') \<longrightarrow>
           (\<exists>base_prompts bm source_prompts sm.
                batch tok base_prompts = Inr (bi, bm) \<and> batch tok source_prompts = Inr (si, sm)
              \<and> length bl = length bi \<and> length sl = length si
              \<and> (\<forall>r<length bi. bl ! r = sum_list (bm ! r) - 1 \<and> bl ! r < int (length (bi ! r)))
              \<and> (\<forall>r<length si. sl ! r = sum_list (sm ! r) - 1 \<and> sl ! r < int (length (si ! r)))))"
proof (intro conjI impI)
  assume "change_box_label tok n data = Inr (ids, li, out)"
  from change_box_label_Inr [OF this]
  obtain items :: "(string list \<times> int list) list" and amask where
    bt: "batch tok (concat (map fst items)) = Inr (ids, amask)"
    and li: "li = last_token_indices_of amask" by auto
  from last_token_indices_bounds [OF wf bt] li bt
  show "\<exists>prompts amask. batch tok prompts = Inr (ids, amask) \<and> length li = length ids
              \<and> (\<forall>r<length ids. li ! r = sum_list (amask ! r) - 1
                     \<and> li ! r < int (length (ids ! r)))"
    by blast
next
  assume "alter_box_object_association tok n data g = Inr ((bi, bl, si, sl, labels), g')"
  then obtain st where "tokenize_pairs tok st = Inr ((bi, bl, si, sl, labels), g')"
    by (auto simp: alter_box_object_association_def rbind_eq_Inr split: if_splits)
  then obtain bps sps bm sm where b: "batch tok bps = Inr (bi, bm)"
    and s: "batch tok sps = Inr (si, sm)"
    and bl: "bl = last_token_indices_of bm" and sl: "sl = last_token_indices_of sm"
    by (cases st) (auto dest!: tokenize_pairs_Inr)
  from last_token_indices_bounds [OF wf b] last_token_indices_bounds [OF wf s] b s bl sl
  show "\<exists>base_prompts bm source_prompts sm.
                batch tok base_prompts = Inr (bi, bm) \<and> batch tok source_prompts = Inr (si, sm)
              \<and> length bl = length bi \<and> length sl = length si
              \<and> (\<forall>r<length bi. bl ! r = sum_list (bm ! r) - 1 \<and> bl ! r < int (length (bi ! r)))
              \<and> (\<forall>r<length si. sl ! r = sum_list (sm ! r) - 1 \<and> sl ! r < int (length (si ! r)))"
    by blast
qed

lemma aligner_step_inv:
  assumes step: "aligner_step tok N m ids li out i j st = Inr st'"
    and inv: "aligner_inv ids li out (i + j) st"
  shows "aligner_inv ids li out (Suc (i + j)) st'"
proof -
  obtain b bp s sp c iv g where st: "st = (b, bp, s, sp, c, iv, g)"
    by (cases st) auto
  from step st
  obtain x xp xc k row v row' xsp g2 where
    x: "py_index ids (int (i + j)) = Inr x" and xp: "py_index li (int (i + j)) = Inr xp"
    and xc: "py_index out (int (i + j)) = Inr xc"
    and row: "py_index ids (int k) = Inr row"
    and set: "py_set_item row (- 3) v = Inr row'"
    and xsp: "py_index li (int k) = Inr xsp"
    and st': "st' = (b @ [x], bp @ [xp], s @ [row'], sp @ [xsp], c @ [xc], iv @ [0], g2)"
    by (auto simp: aligner_step_def Let_def rbind_eq_Inr simp del: of_nat_add of_nat_Suc
        split: prod.splits)
  from inv st have len: "length b = i + j" "length bp = i + j" "length s = i + j"
    "length sp = i + j" "length c = i + j" "length iv = i + j"
    and old: "\<forall>t<i + j. py_index ids (int t) = Inr (b ! t) \<and> py_index li (int t) = Inr (bp ! t)
               \<and> py_index out (int t) = Inr (c ! t) \<and> iv ! t = 0
               \<and> (\<exists>r v row. py_index li (int r) = Inr (sp ! t)
                      \<and> py_index ids (int r) = Inr row
                      \<and> py_set_item row (- 3) v = Inr (s ! t))"
    by (simp_all add: aligner_inv_def)
  have new: "py_index ids (int t) = Inr ((b @ [x]) ! t) \<and> py_index li (int t) = Inr ((bp @ [xp]) ! t)
               \<and> py_index out (int t) = Inr ((c @ [xc]) ! t) \<and> (iv @ [0]) ! t = 0
               \<and> (\<exists>r v row. py_index li (int r) = Inr ((sp @ [xsp]) ! t)
                      \<and> py_index ids (int r) = Inr row
                      \<and> py_set_item row (- 3) v = Inr ((s @ [row']) ! t))"
    if t: "t < Suc (i + j)" for t
  proof (cases "t < i + j")
    case True
    with old len show ?thesis by (simp add: nth_append)
  next
    case False
    with t have "t = i + j" by simp
    with len x xp xc row set xsp show ?thesis by (auto simp: nth_append)
  qed
  show ?thesis
    unfolding st' aligner_inv_def prod.case
    using len new by simp
qed


lemma aligner_inner_inv:
  assumes "aligner_inner tok N m ids li out i [j0..<m] st = Inr st'"
    and "aligner_inv ids li out (min (i + j0) N) st"
    and "j0 \<le> m"
  shows "aligner_inv ids li out (min (i + m) N) st'"
  using assms
proof (induction "m - j0" arbitrary: j0 st)
  case 0
  then have "j0 = m" by simp
  with "0.prems" show ?case by simp
next
  case (Suc d)
  then have lt: "j0 < m" by simp
  then have js: "[j0..<m] = j0 # [Suc j0..<m]" by (rule upt_conv_Cons)
  show ?case
  proof (cases "i + j0 \<ge> N")
    case True
    with Suc.prems(1) js have "st' = st" by simp
    moreover have "min (i + j0) N = min (i + m) N" using True lt by simp
    ultimately show ?thesis using Suc.prems(2) by simp
  next
    case False
    with Suc.prems(1) js obtain st1 where
      step: "aligner_step tok N m ids li out i j0 st = Inr st1"
      and rest: "aligner_inner tok N m ids li out i [Suc j0..<m] st1 = Inr st'"
      by (auto simp: rbind_eq_Inr)
    have "aligner_inv ids li out (i + j0) st" using Suc.prems(2) False by (simp add: min_def)
    from aligner_step_inv [OF step this]
    have "aligner_inv ids li out (min (i + Suc j0) N) st1" using False by (simp add: min_def)
    moreover have "d = m - Suc j0" using Suc.hyps(2) by simp
    moreover have "Suc j0 \<le> m" using lt by simp
    ultimately show ?thesis using Suc.hyps(1) rest by blast
  qed
qed

lemma range_step_covers: "0 < m \<Longrightarrow> N \<le> ((N + m - 1) div m) * (m::nat)"
proof -
  assume m: "0 < m"
  have "N + m - 1 = ((N + m - 1) div m) * m + (N + m - 1) mod m" by simp
  moreover have "(N + m - 1) mod m \<le> m - 1" using m by (simp add: less_Suc_eq_le [symmetric])
  ultimately show ?thesis using m by linarith
qed

lemma aligner_outer_inv:
  assumes "fold_res (\<lambda>i. aligner_inner tok N m ids li out i [0..<m])
             (map (\<lambda>q. q * m) [q0..<Q]) st = Inr st'"
    and "aligner_inv ids li out (min (q0 * m) N) st"
    and "q0 \<le> Q"
  shows "aligner_inv ids li out (min (Q * m) N) st'"
  using assms
proof (induction "Q - q0" arbitrary: q0 st)
  case 0
  then have "q0 = Q" by simp
  with "0.prems" show ?case by simp
next
  case (Suc d)
  then have lt: "q0 < Q" by simp
  then have qs: "[q0..<Q] = q0 # [Suc q0..<Q]" by (rule upt_conv_Cons)
  from Suc.prems(1) qs obtain st1 where
    inner: "aligner_inner tok N m ids li out (q0 * m) [0..<m] st = Inr st1"
    and rest: "fold_res (\<lambda>i. aligner_inner tok N m ids li out i [0..<m])
             (map (\<lambda>q. q * m) [Suc q0..<Q]) st1 = Inr st'"
    by (auto simp: rbind_eq_Inr)
  have "aligner_inv ids li out (min (q0 * m + 0) N) st" using Suc.prems(2) by simp
  from aligner_inner_inv [OF inner this]
  have "aligner_inv ids li out (min (Suc q0 * m) N) st1" by (simp add: add.commute)
  moreover have "d = Q - Suc q0" using Suc.hyps(2) by simp
  moreover have "Suc q0 \<le> Q" using lt by simp
  ultimately show ?case using Suc.hyps(1) rest by blast
qed


lemma box_index_aligner_examples_Inr:
  assumes "box_index_aligner_examples tok N data m arch g = Inr ((b, bp, s, sp, c, iv, inc), g')"
  shows "\<exists>ids li out. entity_tracking_example_sampler tok N data arch = Inr (ids, li, out)
           \<and> 0 < m \<and> inc = []
           \<and> fold_res (\<lambda>i. aligner_inner tok N m ids li out i [0..<m]) (range_step N m)
                ([], [], [], [], [], [], g) = Inr (b, bp, s, sp, c, iv, g')"
  using assms
  by (auto simp: box_index_aligner_examples_def rbind_eq_Inr Let_def split: if_splits prod.splits)

lemma length_range_step_2: "length (range_step N 2) = (N + 1) div 2"
  by (simp add: range_step_def)

lemma change_query_box_pos_rows:
  assumes "change_query_box_pos tok N data = Inr (b, bp, s, sp, c)"
  shows "length b = (N + 1) div 2 \<and> length bp = length b \<and> length s = length b
      \<and> length sp = length b \<and> length c = length b
      \<and> (\<exists>input_ids last_token_indices output_ids.
            change_box_label tok N data = Inr (input_ids, last_token_indices, output_ids)
            \<and> (\<forall>t<length b. py_index input_ids (int (2 * t)) = Inr (b ! t)
                   \<and> py_index last_token_indices (int (2 * t)) = Inr (bp ! t)
                   \<and> py_index output_ids (int (2 * t)) = Inr (c ! t)
                   \<and> py_index input_ids (int (2 * t) + 1) = Inr (s ! t)
                   \<and> py_index last_token_indices (int (2 * t) + 1) = Inr (sp ! t)))"
proof -
  from assms obtain ids li out rows where
    gen: "change_box_label tok N data = Inr (ids, li, out)"
    and rows: "map_res (\<lambda>i.
         rbind (py_index ids (int i)) (\<lambda>b.
         rbind (py_index li (int i)) (\<lambda>bp.
         rbind (py_index ids (int i + 1)) (\<lambda>s.
         rbind (py_index li (int i + 1)) (\<lambda>sp.
         rbind (py_index out (int i)) (\<lambda>c.
           Inr (b, bp, s, sp, c))))))) (range_step N 2) = Inr rows"
    and res: "b = map (\<lambda>(b, bp, s, sp, c). b) rows" "bp = map (\<lambda>(b, bp, s, sp, c). bp) rows"
      "s = map (\<lambda>(b, bp, s, sp, c). s) rows" "sp = map (\<lambda>(b, bp, s, sp, c). sp) rows"
      "c = map (\<lambda>(b, bp, s, sp, c). c) rows"
    by (auto simp: change_query_box_pos_def rbind_eq_Inr split: prod.splits)
  from map_res_Inr [OF rows]
  have len: "length rows = length (range_step N 2)"
    and each: "\<forall>k<length (range_step N 2).
         rbind (py_index ids (int (range_step N 2 ! k))) (\<lambda>b.
         rbind (py_index li (int (range_step N 2 ! k))) (\<lambda>bp.
         rbind (py_index ids (int (range_step N 2 ! k) + 1)) (\<lambda>s.
         rbind (py_index li (int (range_step N 2 ! k) + 1)) (\<lambda>sp.
         rbind (py_index out (int (range_step N 2 ! k))) (\<lambda>c.
           Inr (b, bp, s, sp, c)))))) = Inr (rows ! k)"
    by simp_all
  have lens: "length b = (N + 1) div 2" "length bp = length b" "length s = length b"
    "length sp = length b" "length c = length b"
    using res len by (simp_all add: length_range_step_2)
  have row: "py_index ids (int (2 * t)) = Inr (b ! t)
                   \<and> py_index li (int (2 * t)) = Inr (bp ! t)
                   \<and> py_index out (int (2 * t)) = Inr (c ! t)
                   \<and> py_index ids (int (2 * t) + 1) = Inr (s ! t)
                   \<and> py_index li (int (2 * t) + 1) = Inr (sp ! t)" if t: "t < length b" for t
  proof -
    define i where "i = 2 * t"
    have tl: "t < length (range_step N 2)" using t res(1) len by simp
    then have ri: "range_step N 2 ! t = i" by (simp add: range_step_def i_def)
    from each [rule_format, OF tl] obtain x1 x2 x3 x4 x5 where
      x: "py_index ids (int i) = Inr x1" "py_index li (int i) = Inr x2"
        "py_index ids (int i + 1) = Inr x3" "py_index li (int i + 1) = Inr x4"
        "py_index out (int i) = Inr x5"
      and r: "rows ! t = (x1, x2, x3, x4, x5)"
      unfolding ri by (auto simp: rbind_eq_Inr)
    have tr: "t < length rows" using tl len by simp
    have "b ! t = x1" "bp ! t = x2" "s ! t = x3" "sp ! t = x4" "c ! t = x5"
      using res tr r by simp_all
    with x show ?thesis unfolding i_def by simp
  qed
  show ?thesis using gen lens row by blast
qed

text \<open>
  Claim C2, as amended. When \<open>box_index_aligner_examples\<close> returns, its base ids, base
  positions, source ids, source positions, counterfactual labels and intervention ids all
  have length \<open>num_samples\<close>, while its seventh sequence (the incorrect output ids) is
  always empty; entry \<open>t\<close> of the base ids, base positions and labels is row \<open>t\<close> of the
  sampler's output, and entry \<open>t\<close> of the source ids and of the source positions comes from
  one row \<open>r\<close> (the ids with the third token from the end replaced). When
  \<open>change_query_box_pos\<close> returns, its five sequences have one length, the number of
  even indices below \<open>num_samples\<close>; entry \<open>t\<close> of the base ids, base positions and labels
  is row \<open>2t\<close> of the output of \<open>change_box_label\<close>, and entry \<open>t\<close> of the source ids and
  of the source positions is row \<open>2t + 1\<close> of it.
\<close>

theorem aligner_sequences_aligned:
  "(box_index_aligner_examples tok N data m arch g = Inr ((b, bp, s, sp, c, iv, inc), g') \<longrightarrow>
      length b = N \<and> length bp = N \<and> length s = N \<and> length sp = N \<and> length c = N
      \<and> length iv = N \<and> inc = []
      \<and> (\<exists>input_ids last_token_indices output_ids.
            entity_tracking_example_sampler tok N data arch
              = Inr (input_ids, last_token_indices, output_ids)
            \<and> (\<forall>t<N. py_index input_ids (int t) = Inr (b ! t)
                   \<and> py_index last_token_indices (int t) = Inr (bp ! t)
                   \<and> py_index output_ids (int t) = Inr (c ! t) \<and> iv ! t = 0
                   \<and> (\<exists>r v row. py_index last_token_indices (int r) = Inr (sp ! t)
                          \<and> py_index input_ids (int r) = Inr row
                          \<and> py_set_item row (- 3) v = Inr (s ! t)))))
   \<and> (change_query_box_pos tok N data = Inr (b', bp', s', sp', c') \<longrightarrow>
        length b' = (N + 1) div 2 \<and> length bp' = length b' \<and> length s' = length b'
        \<and> length sp' = length b' \<and> length c' = length b'
        \<and> (\<exists>input_ids last_token_indices output_ids.
              change_box_label tok N data = Inr (input_ids, last_token_indices, output_ids)
              \<and> (\<forall>t<length b'. py_index input_ids (int (2 * t)) = Inr (b' ! t)
                     \<and> py_index last_token_indices (int (2 * t)) = Inr (bp' ! t)
                     \<and> py_index output_ids (int (2 * t)) = Inr (c' ! t)
                     \<and> py_index input_ids (int (2 * t) + 1) = Inr (s' ! t)
                     \<and> py_index last_token_indices (int (2 * t) + 1) = Inr (sp' ! t))))"
proof (rule conjI; rule impI)
  assume "box_index_aligner_examples tok N data m arch g = Inr ((b, bp, s, sp, c, iv, inc), g')"
  from box_index_aligner_examples_Inr [OF this] obtain ids li out where
    sampler: "entity_tracking_example_sampler tok N data arch = Inr (ids, li, out)"
    and m: "0 < m" and inc: "inc = []"
    and loop: "fold_res (\<lambda>i. aligner_inner tok N m ids li out i [0..<m]) (range_step N m)
                ([], [], [], [], [], [], g) = Inr (b, bp, s, sp, c, iv, g')"
    by blast
  let ?Q = "(N + m - 1) div m"
  have init: "aligner_inv ids li out (min (0 * m) N) ([], [], [], [], [], [], g)"
    by (simp add: aligner_inv_def)
  from loop have "fold_res (\<lambda>i. aligner_inner tok N m ids li out i [0..<m])
             (map (\<lambda>q. q * m) [0..<?Q]) ([], [], [], [], [], [], g) = Inr (b, bp, s, sp, c, iv, g')"
    by (simp add: range_step_def)
  from aligner_outer_inv [OF this init]
  have "aligner_inv ids li out (min (?Q * m) N) (b, bp, s, sp, c, iv, g')" by simp
  moreover have "min (?Q * m) N = N" using range_step_covers [OF m, of N] by simp
  ultimately have inv: "aligner_inv ids li out N (b, bp, s, sp, c, iv, g')" by simp
  then show "length b = N \<and> length bp = N \<and> length s = N \<and> length sp = N \<and> length c = N
      \<and> length iv = N \<and> inc = []
      \<and> (\<exists>input_ids last_token_indices output_ids.
            entity_tracking_example_sampler tok N data arch
              = Inr (input_ids, last_token_indices, output_ids)
            \<and> (\<forall>t<N. py_index input_ids (int t) = Inr (b ! t)
                   \<and> py_index last_token_indices (int t) = Inr (bp ! t)
                   \<and> py_index output_ids (int t) = Inr (c ! t) \<and> iv ! t = 0
                   \<and> (\<exists>r v row. py_index last_token_indices (int r) = Inr (sp ! t)
                          \<and> py_index input_ids (int r) = Inr row
                          \<and> py_set_item row (- 3) v = Inr (s ! t))))"
    using sampler inc unfolding aligner_inv_def prod.case by blast
next
  assume "change_query_box_pos tok N data = Inr (b', bp', s', sp', c')"
  then show "length b' = (N + 1) div 2 \<and> length bp' = length b' \<and> length s' = length b'
        \<and> length sp' = length b' \<and> length c' = length b'
        \<and> (\<exists>input_ids last_token_indices output_ids.
              change_box_label tok N data = Inr (input_ids, last_token_indices, output_ids)
              \<and> (\<forall>t<length b'. py_index input_ids (int (2 * t)) = Inr (b' ! t)
                     \<and> py_index last_token_indices (int (2 * t)) = Inr (bp' ! t)
                     \<and> py_index output_ids (int (2 * t)) = Inr (c' ! t)
                     \<and> py_index input_ids (int (2 * t) + 1) = Inr (s' ! t)
                     \<and> py_index last_token_indices (int (2 * t) + 1) = Inr (sp' ! t)))"
    by (rule change_query_box_pos_rows)
qed

subsection \<open>Concrete runs\<close>



lemma encode_toy: "encode toy_tokenizer = toy_encode"
  by (simp add: toy_tokenizer_def)

lemma batch_toy: "batch toy_tokenizer = toy_batch"
  by (simp add: toy_tokenizer_def)

lemma char_of_65: "char_of (65::nat) = CHR ''A''"
  by code_simp

lemmas toy_eval = encode_toy batch_toy toy_encode_def toy_token_def toy_batch_def label_token_def




lemmas str_eval = str_split_def query_of_def context_segments_def
  label_positions_def str_in_def rbind_def py_index_def sublist_code

lemma base_prompt_z: "base_prompt_of sentence_z = ''The a is in Box X, the b is in Box Y. Box Z contains''"
  by (simp add: sentence_z_def base_prompt_of_def str_split_def)

lemma base_prompt_cd: "base_prompt_of sentence_cd = ''The c is in Box X, the d is in Box Y. Box Y contains''"
  by (simp add: sentence_cd_def base_prompt_of_def str_split_def)


lemma base_pos_A: "base_query_box_pos_of (base_prompt_of sentence_z) = Inr 0"
  unfolding base_prompt_z by (simp add: base_query_box_pos_of_def str_eval)

lemma base_pos_B: "base_query_box_pos_of (base_prompt_of sentence_cd) = Inr 0"
  unfolding base_prompt_cd by (simp add: base_query_box_pos_of_def str_eval)


lemma source_pos_A: "source_query_box_pos_of (base_prompt_of sentence_z) = Inl IndexError"
  unfolding base_prompt_z by (simp add: source_query_box_pos_of_def str_eval)

lemma source_pos_B: "source_query_box_pos_of (base_prompt_of sentence_cd) = Inr 1"
  unfolding base_prompt_cd by (simp add: source_query_box_pos_of_def str_eval)


lemma negate_B: "negate_source_prompt (base_prompt_of sentence_cd) 1
   = Inr ''The c is in Box X, the d is not in Box Y. Box Y contains''"
  unfolding base_prompt_cd by (simp add: negate_source_prompt_def str_eval)



lemma object_A: "correct_object_token toy_tokenizer (base_prompt_of sentence_z) 1 = Inr 101"
  unfolding base_prompt_z by (simp add: correct_object_token_def str_eval toy_eval)

lemma object_B: "correct_object_token toy_tokenizer (base_prompt_of sentence_cd) 1 = Inr 103"
  unfolding base_prompt_cd by (simp add: correct_object_token_def str_eval toy_eval)




lemma upt_0_2: "[0..<2] = [0, Suc 0]"
  by (simp add: numeral_2_eq_2)

lemma shuffle_two_keep: "random_shuffle [0..<2] (Suc 0 ## g) = ([0, Suc 0], g)"
  by (simp add: upt_0_2 random_shuffle_def randbelow_def Let_def)

lemma choice_two_second: "random_choice [0, Suc 0] (Suc 0 ## g) = Inr (Suc 0, g)"
  by (simp add: random_choice_def randbelow_def)


lemma pick_source_second:
  assumes "source_query_box_pos_of (base_prompt_of y) = Inr (Suc 0)"
  shows "pick_source [x, y] 0 [0, Suc 0] (Suc 0 ## g) = Inr (base_prompt_of y, Suc 0, g)"
  by (subst pick_source.simps) (simp add: choice_two_second py_index_def assms)


lemma item_second:
  assumes "base_query_box_pos_of (base_prompt_of s) = Inr 0"
    and "source_query_box_pos_of (base_prompt_of y) = Inr (Suc 0)"
    and "negate_source_prompt (base_prompt_of y) (Suc 0) = Inr np"
    and "correct_object_token tok (base_prompt_of s) (Suc 0) = Inr l"
  shows "alter_box_object_association_item tok 2 [x, y] s (bps, sps, ls, Suc 0 ## Suc 0 ## g)
       = Inr (bps @ [base_prompt_of s], sps @ [np], ls @ [l], g)"
  using assms
  by (simp add: alter_box_object_association_item_def Let_def shuffle_two_keep
      pick_source_second rbind_def)


lemma fold_AB:
  "fold_res (alter_box_object_association_item toy_tokenizer 2 [sentence_z, sentence_cd]) [sentence_z, sentence_cd]
     ([], [], [], Suc 0 ## Suc 0 ## Suc 0 ## Suc 0 ## g)
   = Inr ([base_prompt_of sentence_z, base_prompt_of sentence_cd],
          [''The c is in Box X, the d is not in Box Y. Box Y contains'',
           ''The c is in Box X, the d is not in Box Y. Box Y contains''],
          [101, 103], g)"
  by (simp add: rbind_def
      item_second [OF base_pos_A source_pos_B [simplified] negate_B [simplified] object_A [simplified]]
      item_second [OF base_pos_B source_pos_B [simplified] negate_B [simplified] object_B [simplified]])


lemma batch_AB:
  "toy_batch [base_prompt_of sentence_z, base_prompt_of sentence_cd]
   = Inr ([[1, 87, 100, 108, 108, 69, 91, 119, 101, 108, 108, 69, 92, 69, 93, 102],
           [1, 87, 102, 108, 108, 69, 91, 119, 103, 108, 108, 69, 92, 69, 92, 102]],
          [[1, 1, 1, 1, 1, 1, 1, 1, 1, 1, 1, 1, 1, 1, 1, 1],
           [1, 1, 1, 1, 1, 1, 1, 1, 1, 1, 1, 1, 1, 1, 1, 1]])"
  unfolding base_prompt_z base_prompt_cd by (simp add: toy_eval str_split_def)

lemma batch_negB_negB:
  "toy_batch [''The c is in Box X, the d is not in Box Y. Box Y contains'',
              ''The c is in Box X, the d is not in Box Y. Box Y contains'']
   = Inr ([[1, 87, 102, 108, 108, 69, 91, 119, 103, 108, 113, 108, 69, 92, 69, 92, 102],
           [1, 87, 102, 108, 108, 69, 91, 119, 103, 108, 113, 108, 69, 92, 69, 92, 102]],
          [[1, 1, 1, 1, 1, 1, 1, 1, 1, 1, 1, 1, 1, 1, 1, 1, 1],
           [1, 1, 1, 1, 1, 1, 1, 1, 1, 1, 1, 1, 1, 1, 1, 1, 1]])"
  by (simp add: toy_eval str_split_def)

lemma alter_run_z_cd:
  "alter_box_object_association toy_tokenizer 2 [sentence_z, sentence_cd]
     (1 ## 1 ## 1 ## 1 ## sconst 0)
   = Inr (([[1, 87, 100, 108, 108, 69, 91, 119, 101, 108, 108, 69, 92, 69, 93, 102],
            [1, 87, 102, 108, 108, 69, 91, 119, 103, 108, 108, 69, 92, 69, 92, 102]],
           [15, 15],
           [[1, 87, 102, 108, 108, 69, 91, 119, 103, 108, 113, 108, 69, 92, 69, 92, 102],
            [1, 87, 102, 108, 108, 69, 91, 119, 103, 108, 113, 108, 69, 92, 69, 92, 102]],
           [16, 16],
           [101, 103]), sconst 0)"
proof -
  have "alter_box_object_association toy_tokenizer 2 [sentence_z, sentence_cd]
          (Suc 0 ## Suc 0 ## Suc 0 ## Suc 0 ## sconst 0)
        = tokenize_pairs toy_tokenizer
            ([base_prompt_of sentence_z, base_prompt_of sentence_cd],
             [''The c is in Box X, the d is not in Box Y. Box Y contains'',
              ''The c is in Box X, the d is not in Box Y. Box Y contains''],
             [101, 103], sconst 0)"
    by (simp add: alter_box_object_association_def fold_AB rbind_simps del: fold_res.simps)
  also have "\<dots> = Inr (([[1, 87, 100, 108, 108, 69, 91, 119, 101, 108, 108, 69, 92, 69, 93, 102],
            [1, 87, 102, 108, 108, 69, 91, 119, 103, 108, 108, 69, 92, 69, 92, 102]],
           [15, 15],
           [[1, 87, 102, 108, 108, 69, 91, 119, 103, 108, 113, 108, 69, 92, 69, 92, 102],
            [1, 87, 102, 108, 108, 69, 91, 119, 103, 108, 113, 108, 69, 92, 69, 92, 102]],
           [16, 16],
           [101, 103]), sconst 0)"
    by (simp add: tokenize_pairs_def batch_toy batch_AB batch_negB_negB rbind_simps
        last_token_indices_of_def)
  finally show ?thesis by simp
qed

lemma base_prompt_0: "base_prompt_of sentence_0 = ''The a is in Box 0. Box 0 contains''"
  by (simp add: sentence_0_def base_prompt_of_def str_split_def)

lemma label0: "label_of sentence_0 = Inr ''a''"
  by (simp add: sentence_0_def label_of_def str_split_def py_index_def rbind_def)

lemma item0: "entity_tracking_item toy_tokenizer ''LlamaForCausalLM'' sentence_0
     = Inr (''The a is in Box 0. Box 0 contains'', 100)"
  by (simp add: entity_tracking_item_def label0 base_prompt_0 rbind_simps architecture_label_token_def
      llama_architectures_def toy_eval str_split_def py_index_def)

lemma batch0: "toy_batch [''The a is in Box 0. Box 0 contains'']
     = Inr ([[1, 87, 100, 108, 108, 69, 51, 69, 51, 102]], [[1, 1, 1, 1, 1, 1, 1, 1, 1, 1]])"
  by (simp add: toy_eval str_split_def)

lemma sampler0: "entity_tracking_example_sampler toy_tokenizer (Suc 0) [sentence_0] ''LlamaForCausalLM''
     = Inr ([[1, 87, 100, 108, 108, 69, 51, 69, 51, 102]], [9], [100])"
  by (simp add: entity_tracking_example_sampler_def item0 rbind_simps batch_toy batch0
      last_token_indices_of_def)

lemma random_samples_run:
  "random_samples toy_tokenizer 1 [sentence_0] ''LlamaForCausalLM''
     (1 ## sconst 0) = Some (Inl IndexError)"
proof -
  have r: "redraw (Suc 0) [] (Suc 0) (sconst 0) = Some (Suc 0, sconst 0)"
    by (subst redraw.simps) simp
  have "random_samples_step toy_tokenizer [sentence_0] ''LlamaForCausalLM'' ([], [], [], Suc 0 ## sconst 0)
          = Some (Inl IndexError)"
    by (simp add: random_samples_step_def randint_def randbelow_def r py_index_def rbind_simps)
  then show ?thesis
    by (simp add: random_samples_def)
qed

lemma aligner_run:
  "box_index_aligner_examples toy_tokenizer 1 [sentence_0] 1
     ''LlamaForCausalLM'' (sconst 0)
   = Inr (([[1, 87, 100, 108, 108, 69, 51, 69, 51, 102]], [9],
           [[1, 87, 100, 108, 108, 69, 51, 68, 51, 102]], [9], [100], [0], []), sconst 0)"
proof -
  have step: "aligner_step toy_tokenizer (Suc 0) (Suc 0)
        [[1, 87, 100, 108, 108, 69, 51, 69, 51, 102]] [9] [100] 0 0
        ([], [], [], [], [], [], sconst 0)
      = Inr ([[1, 87, 100, 108, 108, 69, 51, 69, 51, 102]], [9],
           [[1, 87, 100, 108, 108, 69, 51, 68, 51, 102]], [9], [100], [0], sconst 0)"
    by (simp add: aligner_step_def range_step_def random_choice_def randbelow_def randint_def
        py_index_def py_set_item_def rbind_simps toy_eval str_split_def Let_def char_of_65)
  show ?thesis
    by (simp add: box_index_aligner_examples_def sampler0 rbind_simps range_step_def step)
qed


lemma change_box_label_run:
  "change_box_label toy_tokenizer 2 [sentence_0, sentence_1]
   = Inr ([[1, 87, 100, 108, 108, 69, 51, 69, 51, 102],
           [1, 87, 100, 108, 108, 69, 57, 69, 57, 102],
           [1, 87, 101, 108, 108, 69, 52, 69, 52, 102],
           [1, 87, 101, 108, 108, 69, 55, 69, 55, 102]],
          [9, 9, 9, 9], [100, 100, 101, 101])"
  by (simp add: sentence_0_def sentence_1_def change_box_label_def change_box_label_item_def
      base_prompt_of_def label_of_def relabel_digits_def str_split_def rbind_def py_index_def
      toy_eval last_token_indices_of_def Let_def)

theorem change_query_box_pos_pairs_witness:
  "wf_tokenizer toy_tokenizer \<and> even (2::nat)
   \<and> (\<exists>b bp s sp c. change_query_box_pos toy_tokenizer 2 [sentence_0, sentence_1]
          = Inr (b, bp, s, sp, c)
        \<and> length b = 1 \<and> length c = 1
        \<and> b ! 0 = [1, 87, 100, 108, 108, 69, 51, 69, 51, 102]
        \<and> s ! 0 = [1, 87, 100, 108, 108, 69, 57, 69, 57, 102] \<and> c ! 0 = 100)"
proof -
  have ev: "even (2::nat)" by simp
  from change_query_box_pos_pairs [OF wf_toy_tokenizer ev change_box_label_run]
  obtain b bp s sp c where
    r: "change_query_box_pos toy_tokenizer 2 [sentence_0, sentence_1] = Inr (b, bp, s, sp, c)"
    and l: "length b = 2 div 2" "length c = 2 div 2"
    and e: "\<forall>k<2 div 2. b ! k = [[1, 87, 100, 108, 108, 69, 51, 69, 51, 102],
           [1, 87, 100, 108, 108, 69, 57, 69, 57, 102],
           [1, 87, 101, 108, 108, 69, 52, 69, 52, 102],
           [1, 87, 101, 108, 108, 69, 55, 69, 55, 102]] ! (2 * k)
         \<and> bp ! k = [9, 9, 9, 9] ! (2 * k)
         \<and> s ! k = [[1, 87, 100, 108, 108, 69, 51, 69, 51, 102],
           [1, 87, 100, 108, 108, 69, 57, 69, 57, 102],
           [1, 87, 101, 108, 108, 69, 52, 69, 52, 102],
           [1, 87, 101, 108, 108, 69, 55, 69, 55, 102]] ! (2 * k + 1)
         \<and> sp ! k = [9, 9, 9, 9] ! (2 * k + 1)
         \<and> c ! k = [100, 100, 101, 101] ! (2 * k)"
    by blast
  from e have "b ! 0 = [1, 87, 100, 108, 108, 69, 51, 69, 51, 102]"
    "s ! 0 = [1, 87, 100, 108, 108, 69, 57, 69, 57, 102]" "c ! 0 = 100"
    by simp_all
  with r l wf_toy_tokenizer show ?thesis by simp
qed


theorem last_token_index_invariant_witness:
  "wf_tokenizer toy_tokenizer
   \<and> (\<exists>amask. (9::int) = sum_list (amask ! 0) - 1 \<and> (9::int) < 10)
   \<and> (\<exists>bm sm. (15::int) = sum_list (bm ! 1) - 1 \<and> (15::int) < 16
         \<and> (16::int) = sum_list (sm ! 1) - 1 \<and> (16::int) < 17)"
proof -
  let ?ids = "[[1, 87, 100, 108, 108, 69, 51, 69, 51, 102],
               [1, 87, 100, 108, 108, 69, 57, 69, 57, 102],
               [1, 87, 101, 108, 108, 69, 52, 69, 52, 102],
               [1, 87, 101, 108, 108, 69, 55, 69, 55, 102 :: int]]"
  let ?li = "[9, 9, 9, 9 :: int]"
  from last_token_index_invariant [OF wf_toy_tokenizer, THEN conjunct1, rule_format,
      OF change_box_label_run]
  obtain amask where
    a: "\<forall>r<length ?ids. ?li ! r = sum_list (amask ! r) - 1 \<and> ?li ! r < int (length (?ids ! r))"
    by blast
  have 1: "(9::int) = sum_list (amask ! 0) - 1 \<and> (9::int) < 10"
    using a [rule_format, of 0] by simp
  let ?bi = "[[1, 87, 100, 108, 108, 69, 91, 119, 101, 108, 108, 69, 92, 69, 93, 102],
              [1, 87, 102, 108, 108, 69, 91, 119, 103, 108, 108, 69, 92, 69, 92, 102 :: int]]"
  let ?si = "[[1, 87, 102, 108, 108, 69, 91, 119, 103, 108, 113, 108, 69, 92, 69, 92, 102],
              [1, 87, 102, 108, 108, 69, 91, 119, 103, 108, 113, 108, 69, 92, 69, 92, 102 :: int]]"
  let ?bl = "[15, 15 :: int]"
  let ?sl = "[16, 16 :: int]"
  from last_token_index_invariant [OF wf_toy_tokenizer, THEN conjunct2, rule_format,
      OF alter_run_z_cd]
  obtain bm sm where
    b: "\<forall>r<length ?bi. ?bl ! r = sum_list (bm ! r) - 1 \<and> ?bl ! r < int (length (?bi ! r))"
    and s: "\<forall>r<length ?si. ?sl ! r = sum_list (sm ! r) - 1 \<and> ?sl ! r < int (length (?si ! r))"
    by blast
  have 2: "(15::int) = sum_list (bm ! 1) - 1 \<and> (15::int) < 16
         \<and> (16::int) = sum_list (sm ! 1) - 1 \<and> (16::int) < 17"
    using b [rule_format, of 1] s [rule_format, of 1] by simp
  from 1 2 wf_toy_tokenizer show ?thesis by blast
qed


lemma label_cd: "label_of sentence_cd = Inr ''d''"
  by (simp add: sentence_cd_def label_of_def str_split_def py_index_def rbind_def)

lemma item_cd: "entity_tracking_item toy_tokenizer ''LlamaForCausalLM'' sentence_cd
     = Inr (''The c is in Box X, the d is in Box Y. Box Y contains'', 103)"
  by (simp add: entity_tracking_item_def label_cd base_prompt_cd rbind_simps architecture_label_token_def
      llama_architectures_def toy_eval str_split_def py_index_def)

lemma batch_0_cd: "toy_batch [''The a is in Box 0. Box 0 contains'',
       ''The c is in Box X, the d is in Box Y. Box Y contains'']
     = Inr ([[1, 87, 100, 108, 108, 69, 51, 69, 51, 102, 0, 0, 0, 0, 0, 0],
             [1, 87, 102, 108, 108, 69, 91, 119, 103, 108, 108, 69, 92, 69, 92, 102]],
            [[1, 1, 1, 1, 1, 1, 1, 1, 1, 1, 0, 0, 0, 0, 0, 0],
             [1, 1, 1, 1, 1, 1, 1, 1, 1, 1, 1, 1, 1, 1, 1, 1]])"
  by (simp add: toy_eval str_split_def numeral_eq_Suc)

lemma sampler_0_cd:
  "entity_tracking_example_sampler toy_tokenizer 2 [sentence_0, sentence_cd] ''LlamaForCausalLM''
     = Inr ([[1, 87, 100, 108, 108, 69, 51, 69, 51, 102, 0, 0, 0, 0, 0, 0],
             [1, 87, 102, 108, 108, 69, 91, 119, 103, 108, 108, 69, 92, 69, 92, 102]],
            [9, 15], [100, 103])"
  by (simp add: entity_tracking_example_sampler_def item0 item_cd rbind_simps batch_toy batch_0_cd
      last_token_indices_of_def)

lemma aligner_run_0_cd:
  "box_index_aligner_examples toy_tokenizer 2 [sentence_0, sentence_cd] 2
     ''LlamaForCausalLM'' (sconst 0)
   = Inr (([[1, 87, 100, 108, 108, 69, 51, 69, 51, 102, 0, 0, 0, 0, 0, 0],
            [1, 87, 102, 108, 108, 69, 91, 119, 103, 108, 108, 69, 92, 69, 92, 102]],
           [9, 15],
           [[1, 87, 102, 108, 108, 69, 91, 119, 103, 108, 108, 69, 92, 68, 92, 102],
            [1, 87, 100, 108, 108, 69, 51, 69, 51, 102, 0, 0, 0, 68, 0, 0]],
           [15, 9], [100, 103], [0, 0], []), sconst 0)"
proof -
  let ?ids = "[[1, 87, 100, 108, 108, 69, 51, 69, 51, 102, 0, 0, 0, 0, 0, 0],
            [1, 87, 102, 108, 108, 69, 91, 119, 103, 108, 108, 69, 92, 69, 92, 102 :: int]]"
  have step0: "aligner_step toy_tokenizer 2 2 ?ids [9, 15] [100, 103] 0 0
        ([], [], [], [], [], [], sconst 0)
      = Inr ([[1, 87, 100, 108, 108, 69, 51, 69, 51, 102, 0, 0, 0, 0, 0, 0]], [9],
           [[1, 87, 102, 108, 108, 69, 91, 119, 103, 108, 108, 69, 92, 68, 92, 102]], [15],
           [100], [0], sconst 0)"
    by (simp add: aligner_step_def range_step_def random_choice_def randbelow_def randint_def
        py_index_def py_set_item_def rbind_simps toy_eval str_split_def Let_def char_of_65)
  have step1: "aligner_step toy_tokenizer 2 2 ?ids [9, 15] [100, 103] 0 (Suc 0)
        ([[1, 87, 100, 108, 108, 69, 51, 69, 51, 102, 0, 0, 0, 0, 0, 0]], [9],
           [[1, 87, 102, 108, 108, 69, 91, 119, 103, 108, 108, 69, 92, 68, 92, 102]], [15],
           [100], [0], sconst 0)
      = Inr ([[1, 87, 100, 108, 108, 69, 51, 69, 51, 102, 0, 0, 0, 0, 0, 0],
            [1, 87, 102, 108, 108, 69, 91, 119, 103, 108, 108, 69, 92, 69, 92, 102]],
           [9, 15],
           [[1, 87, 102, 108, 108, 69, 91, 119, 103, 108, 108, 69, 92, 68, 92, 102],
            [1, 87, 100, 108, 108, 69, 51, 69, 51, 102, 0, 0, 0, 68, 0, 0]],
           [15, 9], [100, 103], [0, 0], sconst 0)"
    by (simp add: aligner_step_def range_step_def random_choice_def randbelow_def randint_def
        py_index_def py_set_item_def rbind_simps toy_eval str_split_def Let_def char_of_65)
  show ?thesis
    by (simp add: box_index_aligner_examples_def sampler_0_cd rbind_simps range_step_def upt_0_2
        step0 step1)
qed

lemma change_box_label_run_4:
  "change_box_label toy_tokenizer 4 [sentence_0, sentence_1, sentence_0, sentence_1]
   = Inr ([[1, 87, 100, 108, 108, 69, 51, 69, 51, 102],
           [1, 87, 100, 108, 108, 69, 57, 69, 57, 102],
           [1, 87, 101, 108, 108, 69, 52, 69, 52, 102],
           [1, 87, 101, 108, 108, 69, 55, 69, 55, 102],
           [1, 87, 100, 108, 108, 69, 51, 69, 51, 102],
           [1, 87, 100, 108, 108, 69, 57, 69, 57, 102],
           [1, 87, 101, 108, 108, 69, 52, 69, 52, 102],
           [1, 87, 101, 108, 108, 69, 55, 69, 55, 102]],
          [9, 9, 9, 9, 9, 9, 9, 9], [100, 100, 101, 101, 100, 100, 101, 101])"
  by (simp add: sentence_0_def sentence_1_def change_box_label_def change_box_label_item_def
      base_prompt_of_def label_of_def relabel_digits_def str_split_def rbind_def py_index_def
      toy_eval last_token_indices_of_def Let_def)

lemma change_query_box_pos_run_4:
  "change_query_box_pos toy_tokenizer 4 [sentence_0, sentence_1, sentence_0, sentence_1]
   = Inr ([[1, 87, 100, 108, 108, 69, 51, 69, 51, 102],
           [1, 87, 101, 108, 108, 69, 52, 69, 52, 102]], [9, 9],
          [[1, 87, 100, 108, 108, 69, 57, 69, 57, 102],
           [1, 87, 101, 108, 108, 69, 55, 69, 55, 102]], [9, 9], [100, 101])"
  by (simp add: change_query_box_pos_def change_box_label_run_4 rbind_simps range_step_def
      upt_0_2 py_index_def)


text \<open>
  Claim C2 as stated fails. The claim says that all sequences an aligner returns, any extra
  metadata sequence included, have equal length. A run of \<open>box_index_aligner_examples\<close>
  on one sentence returns six sequences of length one and an empty seventh.
\<close>

theorem box_index_aligner_examples_unequal_lengths:
  "box_index_aligner_examples toy_tokenizer 1 [''The a is in Box 0. Box 0 contains a.''] 1
     ''LlamaForCausalLM'' (sconst 0)
   = Inr (([[1, 87, 100, 108, 108, 69, 51, 69, 51, 102]], [9],
           [[1, 87, 100, 108, 108, 69, 51, 68, 51, 102]], [9], [100], [0], []), sconst 0)"
  using aligner_run by (simp add: sentence_0_def)

theorem aligner_sequences_aligned_witness:
  "(\<exists>ids li out.
       entity_tracking_example_sampler toy_tokenizer 2 [sentence_0, sentence_cd] ''LlamaForCausalLM''
         = Inr (ids, li, out)
       \<and> py_index ids 1 = Inr [1, 87, 102, 108, 108, 69, 91, 119, 103, 108, 108, 69, 92, 69, 92, 102]
       \<and> py_index li 1 = Inr 15 \<and> py_index out 1 = Inr 103
       \<and> (\<exists>r v row. py_index li (int r) = Inr 9 \<and> py_index ids (int r) = Inr row
              \<and> py_set_item row (- 3) v
                  = Inr [1, 87, 100, 108, 108, 69, 51, 69, 51, 102, 0, 0, 0, 68, 0, 0]))
   \<and> (\<exists>ids li out.
       change_box_label toy_tokenizer 4 [sentence_0, sentence_1, sentence_0, sentence_1]
         = Inr (ids, li, out)
       \<and> py_index ids 2 = Inr [1, 87, 101, 108, 108, 69, 52, 69, 52, 102]
       \<and> py_index li 2 = Inr 9 \<and> py_index out 2 = Inr 101
       \<and> py_index ids 3 = Inr [1, 87, 101, 108, 108, 69, 55, 69, 55, 102]
       \<and> py_index li 3 = Inr 9)"
proof -
  from aligner_sequences_aligned [THEN conjunct1, rule_format, OF aligner_run_0_cd]
  obtain ids li out where
    s: "entity_tracking_example_sampler toy_tokenizer 2 [sentence_0, sentence_cd] ''LlamaForCausalLM''
         = Inr (ids, li, out)"
    and a: "\<forall>t<2. py_index ids (int t)
                 = Inr ([[1, 87, 100, 108, 108, 69, 51, 69, 51, 102, 0, 0, 0, 0, 0, 0],
                         [1, 87, 102, 108, 108, 69, 91, 119, 103, 108, 108, 69, 92, 69, 92, 102]] ! t)
               \<and> py_index li (int t) = Inr ([9, 15] ! t)
               \<and> py_index out (int t) = Inr ([100, 103] ! t) \<and> [0, 0 :: int] ! t = 0
               \<and> (\<exists>r v row. py_index li (int r) = Inr ([15, 9] ! t)
                      \<and> py_index ids (int r) = Inr row
                      \<and> py_set_item row (- 3) v
                          = Inr ([[1, 87, 102, 108, 108, 69, 91, 119, 103, 108, 108, 69, 92, 68, 92, 102],
                                  [1, 87, 100, 108, 108, 69, 51, 69, 51, 102, 0, 0, 0, 68, 0, 0]] ! t))"
    by blast
  have 1: "py_index ids 1 = Inr [1, 87, 102, 108, 108, 69, 91, 119, 103, 108, 108, 69, 92, 69, 92, 102]
       \<and> py_index li 1 = Inr 15 \<and> py_index out 1 = Inr 103
       \<and> (\<exists>r v row. py_index li (int r) = Inr 9 \<and> py_index ids (int r) = Inr row
              \<and> py_set_item row (- 3) v
                  = Inr [1, 87, 100, 108, 108, 69, 51, 69, 51, 102, 0, 0, 0, 68, 0, 0])"
    using a [rule_format, of 1] by simp
  from aligner_sequences_aligned [THEN conjunct2, rule_format, OF change_query_box_pos_run_4]
  obtain ids' li' out' where
    s': "change_box_label toy_tokenizer 4 [sentence_0, sentence_1, sentence_0, sentence_1]
         = Inr (ids', li', out')"
    and a': "\<forall>t<length [[1, 87, 100, 108, 108, 69, 51, 69, 51, 102],
                          [1, 87, 101, 108, 108, 69, 52, 69, 52, 102 :: int]].
               py_index ids' (int (2 * t))
                 = Inr ([[1, 87, 100, 108, 108, 69, 51, 69, 51, 102],
                         [1, 87, 101, 108, 108, 69, 52, 69, 52, 102]] ! t)
               \<and> py_index li' (int (2 * t)) = Inr ([9, 9] ! t)
               \<and> py_index out' (int (2 * t)) = Inr ([100, 101] ! t)
               \<and> py_index ids' (int (2 * t) + 1)
                   = Inr ([[1, 87, 100, 108, 108, 69, 57, 69, 57, 102],
                           [1, 87, 101, 108, 108, 69, 55, 69, 55, 102]] ! t)
               \<and> py_index li' (int (2 * t) + 1) = Inr ([9, 9] ! t)"
    by blast
  have 2: "py_index ids' 2 = Inr [1, 87, 101, 108, 108, 69, 52, 69, 52, 102]
       \<and> py_index li' 2 = Inr 9 \<and> py_index out' 2 = Inr 101
       \<and> py_index ids' 3 = Inr [1, 87, 101, 108, 108, 69, 55, 69, 55, 102]
       \<and> py_index li' 3 = Inr 9"
    using a' [rule_format, of 1] by simp
  from s 1 s' 2 show ?thesis by blast
qed

text \<open>
  Claim C1. The claim says that the position found for the query's label is the index of
  the context segment that holds the label as a whole token, and is 1 for label \<open>B\<close> in the
  sentence of the spec. The lookup for the base prompt enumerates the segments of the query
  itself (\<open>base_query\<close>), so it finds position 0; the lookup for the source prompt does
  enumerate the context, but tests \<open>label in segment\<close>, which the \<open>B\<close> of \<open>Box\<close> in the first
  segment satisfies, so it finds 0 as well. With digit labels the source lookup finds the
  right position 1 and the base lookup still finds 0.
\<close>

theorem query_box_lookup_example:
  "base_query_box_pos_of (base_prompt_of
      ''The watch is in Box A, the pen is in Box B, the cup is in Box C. Box B contains pen.'')
     = Inr 0
   \<and> source_query_box_pos_of (base_prompt_of
      ''The watch is in Box A, the pen is in Box B, the cup is in Box C. Box B contains pen.'')
     = Inr 0
   \<and> base_query_box_pos_of (base_prompt_of
      ''The watch is in Box 0, the pen is in Box 1, the cup is in Box 2. Box 1 contains pen.'')
     = Inr 0
   \<and> source_query_box_pos_of (base_prompt_of
      ''The watch is in Box 0, the pen is in Box 1, the cup is in Box 2. Box 1 contains pen.'')
     = Inr 1"
proof -
  have p1: "base_prompt_of
      ''The watch is in Box A, the pen is in Box B, the cup is in Box C. Box B contains pen.''
    = ''The watch is in Box A, the pen is in Box B, the cup is in Box C. Box B contains''"
    by (simp add: base_prompt_of_def str_split_def)
  have p2: "base_prompt_of
      ''The watch is in Box 0, the pen is in Box 1, the cup is in Box 2. Box 1 contains pen.''
    = ''The watch is in Box 0, the pen is in Box 1, the cup is in Box 2. Box 1 contains''"
    by (simp add: base_prompt_of_def str_split_def)
  have b1: "base_query_box_pos_of
      ''The watch is in Box A, the pen is in Box B, the cup is in Box C. Box B contains'' = Inr 0"
    by (simp add: base_query_box_pos_of_def str_eval)
  have s1: "source_query_box_pos_of
      ''The watch is in Box A, the pen is in Box B, the cup is in Box C. Box B contains'' = Inr 0"
    by (simp add: source_query_box_pos_of_def str_eval)
  have b2: "base_query_box_pos_of
      ''The watch is in Box 0, the pen is in Box 1, the cup is in Box 2. Box 1 contains'' = Inr 0"
    by (simp add: base_query_box_pos_of_def str_eval)
  have s2: "source_query_box_pos_of
      ''The watch is in Box 0, the pen is in Box 1, the cup is in Box 2. Box 1 contains'' = Inr 1"
    by (simp add: source_query_box_pos_of_def str_eval)
  show ?thesis unfolding p1 p2 b1 s1 b2 s2 by simp
qed

text \<open>
  Claim C6. The claim says that a sentence whose query label is in no context segment makes
  the editor raise a lookup error. The first sentence below is such a sentence (no segment
  of its context contains \<open>Z\<close>); \<open>alter_box_object_association\<close> takes it as a base
  prompt, finds position 0 in the query itself, and returns a result.
\<close>

theorem alter_box_object_association_no_lookup_error:
  "label_positions ''Z'' [''The a is in Box X'', ''the b is in Box Y''] = []
   \<and> alter_box_object_association toy_tokenizer 2
       [''The a is in Box X, the b is in Box Y. Box Z contains b.'',
        ''The c is in Box X, the d is in Box Y. Box Y contains d.'']
       (1 ## 1 ## 1 ## 1 ## sconst 0)
     = Inr (([[1, 87, 100, 108, 108, 69, 91, 119, 101, 108, 108, 69, 92, 69, 93, 102],
              [1, 87, 102, 108, 108, 69, 91, 119, 103, 108, 108, 69, 92, 69, 92, 102]],
             [15, 15],
             [[1, 87, 102, 108, 108, 69, 91, 119, 103, 108, 113, 108, 69, 92, 69, 92, 102],
              [1, 87, 102, 108, 108, 69, 91, 119, 103, 108, 113, 108, 69, 92, 69, 92, 102]],
             [16, 16],
             [101, 103]), sconst 0)"
proof -
  have "label_positions ''Z'' [''The a is in Box X'', ''the b is in Box Y''] = []"
    by (simp add: label_positions_def str_in_def sublist_code)
  then show ?thesis
    using alter_run_z_cd unfolding sentence_z_def sentence_cd_def by simp
qed

text \<open>
  Claim C10. The claim says that every index \<open>random_samples\<close> draws is below the number
  of dataset rows. The index is drawn by \<open>random.randint(0, len(data))\<close>, which includes
  \<open>len(data)\<close>: with one row and that draw, \<open>data[i]\<close> raises \<open>IndexError\<close>.
\<close>

theorem random_samples_index_out_of_range:
  "random_samples toy_tokenizer 1 [''The a is in Box 0. Box 0 contains a.'']
     ''LlamaForCausalLM'' (1 ## sconst 0) = Some (Inl IndexError)"
  using random_samples_run by (simp add: sentence_0_def)


subsection \<open>The draws an editor uses\<close>




































end
